theory Spec2Isabelle
  imports Complex_Main
begin

section \<open>JavaScript values and strings\<close>

text \<open>
  A JavaScript string is a sequence of code units. The model uses \<^typ>\<open>string\<close> and reads
  a \<^typ>\<open>char\<close> as one code unit below 256 (Latin-1); text outside that range is outside
  the model. A JavaScript number is modelled as a rational: arithmetic is exact, the rounding
  of IEEE doubles is not modelled. Clock readings (\<^verbatim>\<open>Date\<close>) are not part of the model.
\<close>

datatype js_error = TypeError string | Error string

text \<open>The values a tool call parameter can carry (JSON values, and \<^verbatim>\<open>undefined\<close>).\<close>

datatype jsval =
    JUndefined
  | JNull
  | JBool bool
  | JNum rat
  | JStr string
  | JArr "jsval list"
  | JObj "(string \<times> jsval) list"

fun truthy :: "jsval \<Rightarrow> bool" where
  "truthy JUndefined = False"
| "truthy JNull = False"
| "truthy (JBool b) = b"
| "truthy (JNum n) = (n \<noteq> 0)"
| "truthy (JStr s) = (s \<noteq> [])"
| "truthy (JArr vs) = True"
| "truthy (JObj kvs) = True"

text \<open>\<^verbatim>\<open>obj[key]\<close> on a parameter record: a missing key reads as \<^verbatim>\<open>undefined\<close>.\<close>

definition getProp :: "(string \<times> jsval) list \<Rightarrow> string \<Rightarrow> jsval" where
  "getProp obj key = (case map_of obj key of None \<Rightarrow> JUndefined | Some v \<Rightarrow> v)"

text \<open>
  \<^verbatim>\<open>String.prototype.toLowerCase\<close> on code units below 256: the letters A to Z and the
  Latin-1 capitals (192 to 222 without 215) move up by 32, which sets the bit of value 32.
\<close>

fun lowerChar :: "char \<Rightarrow> char" where
  "lowerChar (Char b0 b1 b2 b3 b4 b5 b6 b7) =
     (let n = of_char (Char b0 b1 b2 b3 b4 b5 b6 b7) :: nat
      in if (65 \<le> n \<and> n \<le> 90) \<or> (192 \<le> n \<and> n \<le> 222 \<and> n \<noteq> 215)
         then Char b0 b1 b2 b3 b4 True b6 b7
         else Char b0 b1 b2 b3 b4 b5 b6 b7)"

definition toLowerCase :: "string \<Rightarrow> string" where
  "toLowerCase s = map lowerChar s"

text \<open>\<^verbatim>\<open>String.prototype.startsWith\<close> and \<^verbatim>\<open>String.prototype.includes\<close>.\<close>

definition startsWith :: "string \<Rightarrow> string \<Rightarrow> bool" where
  "startsWith s p = (take (length p) s = p)"

fun str_includes :: "string \<Rightarrow> string \<Rightarrow> bool" where
  "str_includes [] needle = (needle = [])"
| "str_includes (c # cs) needle = (startsWith (c # cs) needle \<or> str_includes cs needle)"

text \<open>Decimal rendering of a non-negative integer, as a template literal prints it.\<close>

definition digitChar :: "nat \<Rightarrow> char" where
  "digitChar d = ''0123456789'' ! d"

function showNat :: "nat \<Rightarrow> string" where
  "showNat n = (if n < 10 then [digitChar n] else showNat (n div 10) @ [digitChar (n mod 10)])"
  by pat_completeness auto
termination
  by (relation "measure (\<lambda>n. n)") auto

declare showNat.simps [simp del]

section \<open>Response validator\<close>

subsection \<open>Data model\<close>

record ToolCall =
  tc_name :: string
  tc_parameters :: "(string \<times> jsval) list"

datatype ResponseStepType =
  RObservation | RAnalysis | RHypothesis | RVerification | RDecision | RAction | RConclusion

record ResponseReasoningStep =
  rrs_type :: ResponseStepType
  rrs_content :: string
  rrs_evidence :: "string list"
  rrs_confidence :: rat

record AIResponse =
  ar_content :: string
  ar_toolCalls :: "ToolCall list"
  ar_reasoning :: "ResponseReasoningStep list option"
  ar_confidence :: "rat option"

datatype Severity = Low | Medium | High | Critical

datatype ValidationIssueType =
    tool_not_available
  | invalid_parameters
  | constraint_violation
  | logical_inconsistency
  | insufficient_evidence
  | hallucination_detected
  | circular_reasoning
  | unsafe_operation
  | missing_reasoning
  | low_confidence
  | factual_error
  | parameter_mismatch

text \<open>
  Of a \<^verbatim>\<open>ValidationIssue\<close> the model keeps the fields the validator decides on (type,
  severity, location); the human-readable \<^verbatim>\<open>message\<close>, \<^verbatim>\<open>suggestedFix\<close> and
  \<^verbatim>\<open>evidence\<close> texts are left out.
\<close>

record ValidationIssue =
  vi_type :: ValidationIssueType
  vi_severity :: Severity
  vi_location :: string

record ValidationConstraints =
  minimumConfidence :: rat
  allowedTools :: "string list"
  forbiddenOperations :: "string list"
  requireReasoning :: bool
  requireEvidence :: bool
  safetyChecks :: bool
  factChecking :: bool
  maxToolCalls :: nat

record PromptContext =
  pc_userGoal :: string
  pc_workingDirectory :: string
  pc_availableTools :: "string list"
  pc_constraints :: "string list"

text \<open>
  Of a \<^verbatim>\<open>ValidationResult\<close> the model keeps the validity flag, the score, the issues and
  the execution gate; the suggestion texts and the corrected response are left out.
\<close>

record ValidationResult =
  vr_isValid :: bool
  vr_score :: rat
  vr_issues :: "ValidationIssue list"
  vr_allowExecution :: bool

text \<open>A rule either returns its issues or throws.\<close>

record ValidationRule =
  rule_name :: string
  rule_severity :: Severity
  rule_validate ::
    "AIResponse \<Rightarrow> PromptContext \<Rightarrow> ValidationConstraints \<Rightarrow> js_error + ValidationIssue list"

record ResponseValidator =
  validationRules :: "ValidationRule list"

subsection \<open>The rules\<close>

definition ToolAvailabilityRule_validate ::
  "AIResponse \<Rightarrow> PromptContext \<Rightarrow> ValidationConstraints \<Rightarrow> js_error + ValidationIssue list" where
  "ToolAvailabilityRule_validate response context constraints =
     Inr (concat (map (\<lambda>toolCall.
        if tc_name toolCall \<notin> set (pc_availableTools context)
        then [\<lparr>vi_type = tool_not_available, vi_severity = Critical,
               vi_location = ''tool_calls''\<rparr>]
        else []) (ar_toolCalls response)))"

definition ToolAvailabilityRule :: ValidationRule where
  "ToolAvailabilityRule =
     \<lparr>rule_name = ''ToolAvailability'', rule_severity = Critical,
      rule_validate = ToolAvailabilityRule_validate\<rparr>"

definition ParameterValidationRule_validate ::
  "AIResponse \<Rightarrow> PromptContext \<Rightarrow> ValidationConstraints \<Rightarrow> js_error + ValidationIssue list" where
  "ParameterValidationRule_validate response context constraints =
     Inr (concat (map (\<lambda>toolCall.
        if tc_parameters toolCall = []
        then [\<lparr>vi_type = invalid_parameters, vi_severity = High,
               vi_location = ''tool_calls''\<rparr>]
        else []) (ar_toolCalls response)))"

definition ParameterValidationRule :: ValidationRule where
  "ParameterValidationRule =
     \<lparr>rule_name = ''ParameterValidation'', rule_severity = High,
      rule_validate = ParameterValidationRule_validate\<rparr>"

text \<open>
  \<^verbatim>\<open>command && command.includes('rm -rf')\<close>: a falsy command is skipped, a string is
  searched, an array is asked for the element, and any other truthy value has no
  \<^verbatim>\<open>includes\<close> method, so the call throws.
\<close>

fun commandIncludesRmRf :: "jsval \<Rightarrow> js_error + bool" where
  "commandIncludesRmRf (JStr s) = Inr (s \<noteq> [] \<and> str_includes s ''rm -rf'')"
| "commandIncludesRmRf (JArr vs) = Inr (JStr ''rm -rf'' \<in> set vs)"
| "commandIncludesRmRf v =
     (if truthy v then Inl (TypeError ''command.includes is not a function'') else Inr False)"

fun SafetyCheckRule_loop :: "ToolCall list \<Rightarrow> ValidationIssue list \<Rightarrow> js_error + ValidationIssue list" where
  "SafetyCheckRule_loop [] issues = Inr issues"
| "SafetyCheckRule_loop (toolCall # rest) issues =
     (if tc_name toolCall = ''shell''
      then (case commandIncludesRmRf (getProp (tc_parameters toolCall) ''command'') of
              Inl err \<Rightarrow> Inl err
            | Inr True \<Rightarrow> SafetyCheckRule_loop rest
                (issues @ [\<lparr>vi_type = unsafe_operation, vi_severity = High,
                            vi_location = ''tool_calls''\<rparr>])
            | Inr False \<Rightarrow> SafetyCheckRule_loop rest issues)
      else SafetyCheckRule_loop rest issues)"

definition SafetyCheckRule_validate ::
  "AIResponse \<Rightarrow> PromptContext \<Rightarrow> ValidationConstraints \<Rightarrow> js_error + ValidationIssue list" where
  "SafetyCheckRule_validate response context constraints =
     (if \<not> safetyChecks constraints then Inr []
      else SafetyCheckRule_loop (ar_toolCalls response) [])"

definition SafetyCheckRule :: ValidationRule where
  "SafetyCheckRule =
     \<lparr>rule_name = ''SafetyCheck'', rule_severity = High,
      rule_validate = SafetyCheckRule_validate\<rparr>"

text \<open>\<^verbatim>\<open>!response.reasoning || response.reasoning.length === 0\<close>\<close>

definition noReasoning :: "AIResponse \<Rightarrow> bool" where
  "noReasoning response =
     (case ar_reasoning response of None \<Rightarrow> True | Some steps \<Rightarrow> steps = [])"

definition ReasoningValidationRule_validate ::
  "AIResponse \<Rightarrow> PromptContext \<Rightarrow> ValidationConstraints \<Rightarrow> js_error + ValidationIssue list" where
  "ReasoningValidationRule_validate response context constraints =
     Inr (if requireReasoning constraints \<and> noReasoning response
          then [\<lparr>vi_type = missing_reasoning, vi_severity = High, vi_location = ''reasoning''\<rparr>]
          else [])"

definition ReasoningValidationRule :: ValidationRule where
  "ReasoningValidationRule =
     \<lparr>rule_name = ''ReasoningValidation'', rule_severity = Medium,
      rule_validate = ReasoningValidationRule_validate\<rparr>"

text \<open>\<^verbatim>\<open>response.confidence && response.confidence < constraints.minimumConfidence\<close>:
  an absent confidence and the confidence 0 are both falsy.\<close>

definition ConfidenceValidationRule_validate ::
  "AIResponse \<Rightarrow> PromptContext \<Rightarrow> ValidationConstraints \<Rightarrow> js_error + ValidationIssue list" where
  "ConfidenceValidationRule_validate response context constraints =
     Inr (case ar_confidence response of
            None \<Rightarrow> []
          | Some c \<Rightarrow>
              if c \<noteq> 0 \<and> c < minimumConfidence constraints
              then [\<lparr>vi_type = low_confidence, vi_severity = Medium, vi_location = ''response''\<rparr>]
              else [])"

definition ConfidenceValidationRule :: ValidationRule where
  "ConfidenceValidationRule =
     \<lparr>rule_name = ''ConfidenceValidation'', rule_severity = Medium,
      rule_validate = ConfidenceValidationRule_validate\<rparr>"

definition ConstraintComplianceRule_validate ::
  "AIResponse \<Rightarrow> PromptContext \<Rightarrow> ValidationConstraints \<Rightarrow> js_error + ValidationIssue list" where
  "ConstraintComplianceRule_validate response context constraints =
     Inr (concat (map (\<lambda>forbidden.
        if str_includes (toLowerCase (ar_content response)) (toLowerCase forbidden)
        then [\<lparr>vi_type = constraint_violation, vi_severity = High, vi_location = ''content''\<rparr>]
        else []) (forbiddenOperations constraints)))"

definition ConstraintComplianceRule :: ValidationRule where
  "ConstraintComplianceRule =
     \<lparr>rule_name = ''ConstraintCompliance'', rule_severity = High,
      rule_validate = ConstraintComplianceRule_validate\<rparr>"

definition HallucinationDetectionRule_validate ::
  "AIResponse \<Rightarrow> PromptContext \<Rightarrow> ValidationConstraints \<Rightarrow> js_error + ValidationIssue list" where
  "HallucinationDetectionRule_validate response context constraints =
     Inr (concat (map (\<lambda>toolCall.
        if tc_name toolCall \<notin> set (pc_availableTools context)
        then [\<lparr>vi_type = hallucination_detected, vi_severity = High,
               vi_location = ''tool_calls''\<rparr>]
        else []) (ar_toolCalls response)))"

definition HallucinationDetectionRule :: ValidationRule where
  "HallucinationDetectionRule =
     \<lparr>rule_name = ''HallucinationDetection'', rule_severity = High,
      rule_validate = HallucinationDetectionRule_validate\<rparr>"

definition contradictoryPairs :: "(string \<times> string) list" where
  "contradictoryPairs =
     [(''exists'', ''does not exist''), (''true'', ''false''),
      (''valid'', ''invalid''), (''possible'', ''impossible'')]"

definition areContradictory :: "ResponseReasoningStep \<Rightarrow> ResponseReasoningStep \<Rightarrow> bool" where
  "areContradictory step1 step2 =
     (let content1 = toLowerCase (rrs_content step1);
          content2 = toLowerCase (rrs_content step2)
      in list_ex (\<lambda>(positive, negative).
           (str_includes content1 positive \<and> str_includes content2 negative) \<or>
           (str_includes content1 negative \<and> str_includes content2 positive)) contradictoryPairs)"

text \<open>The loop over \<^verbatim>\<open>i\<close> from 0 while \<^verbatim>\<open>i < reasoning.length - 1\<close>.\<close>

fun contradictionIssues :: "nat \<Rightarrow> ResponseReasoningStep list \<Rightarrow> ValidationIssue list" where
  "contradictionIssues i (current # next # rest) =
     (if areContradictory current next
      then [\<lparr>vi_type = logical_inconsistency, vi_severity = Medium,
             vi_location = ''reasoning_step_'' @ showNat i\<rparr>]
      else []) @ contradictionIssues (Suc i) (next # rest)"
| "contradictionIssues i steps = []"

definition LogicalConsistencyRule_validate ::
  "AIResponse \<Rightarrow> PromptContext \<Rightarrow> ValidationConstraints \<Rightarrow> js_error + ValidationIssue list" where
  "LogicalConsistencyRule_validate response context constraints =
     Inr (case ar_reasoning response of
            None \<Rightarrow> []
          | Some reasoning \<Rightarrow> contradictionIssues 0 reasoning)"

definition LogicalConsistencyRule :: ValidationRule where
  "LogicalConsistencyRule =
     \<lparr>rule_name = ''LogicalConsistency'', rule_severity = Medium,
      rule_validate = LogicalConsistencyRule_validate\<rparr>"

subsection \<open>The validator\<close>

definition initializeValidationRules :: "ValidationRule list" where
  "initializeValidationRules =
     [ToolAvailabilityRule, ParameterValidationRule, SafetyCheckRule, ReasoningValidationRule,
      ConfidenceValidationRule, ConstraintComplianceRule, HallucinationDetectionRule,
      LogicalConsistencyRule]"

text \<open>The constructor.\<close>

definition new_ResponseValidator :: ResponseValidator where
  "new_ResponseValidator = \<lparr>validationRules = initializeValidationRules\<rparr>"

definition addValidationRule :: "ResponseValidator \<Rightarrow> ValidationRule \<Rightarrow> ResponseValidator" where
  "addValidationRule v rule = v\<lparr>validationRules := validationRules v @ [rule]\<rparr>"

fun removeFirstNamed :: "string \<Rightarrow> ValidationRule list \<Rightarrow> ValidationRule list" where
  "removeFirstNamed ruleName [] = []"
| "removeFirstNamed ruleName (r # rs) =
     (if rule_name r = ruleName then rs else r # removeFirstNamed ruleName rs)"

definition removeValidationRule :: "ResponseValidator \<Rightarrow> string \<Rightarrow> bool \<times> ResponseValidator" where
  "removeValidationRule v ruleName =
     (if list_ex (\<lambda>r. rule_name r = ruleName) (validationRules v)
      then (True, v\<lparr>validationRules := removeFirstNamed ruleName (validationRules v)\<rparr>)
      else (False, v))"

text \<open>The issue recorded in place of the issues of a rule that threw.\<close>

definition ruleFailureIssue :: ValidationIssue where
  "ruleFailureIssue =
     \<lparr>vi_type = factual_error, vi_severity = Medium, vi_location = ''validator''\<rparr>"

fun runRules ::
  "ValidationRule list \<Rightarrow> AIResponse \<Rightarrow> PromptContext \<Rightarrow> ValidationConstraints \<Rightarrow>
   ValidationIssue list \<Rightarrow> ValidationIssue list" where
  "runRules [] response context constraints issues = issues"
| "runRules (rule # rules) response context constraints issues =
     (case rule_validate rule response context constraints of
        Inr ruleIssues \<Rightarrow> runRules rules response context constraints (issues @ ruleIssues)
      | Inl err \<Rightarrow> runRules rules response context constraints (issues @ [ruleFailureIssue]))"

fun severityPenalty :: "Severity \<Rightarrow> rat" where
  "severityPenalty Critical = 0.4"
| "severityPenalty High = 0.2"
| "severityPenalty Medium = 0.1"
| "severityPenalty Low = 0.05"

definition calculateValidationScore :: "ValidationIssue list \<Rightarrow> AIResponse \<Rightarrow> rat" where
  "calculateValidationScore issues response =
     (let score0 = foldl (\<lambda>score issue. score - severityPenalty (vi_severity issue)) 1 issues;
          score1 = (if \<not> noReasoning response then score0 + 0.1 else score0);
          score2 = (case ar_confidence response of
                      None \<Rightarrow> score1
                    | Some c \<Rightarrow> if c \<noteq> 0 \<and> c > 0.8 then score1 + 0.05 else score1)
      in max score2 0)"

definition shouldAllowExecution ::
  "ValidationIssue list \<Rightarrow> rat \<Rightarrow> ValidationConstraints \<Rightarrow> bool" where
  "shouldAllowExecution issues score constraints =
     (let criticalIssues = filter (\<lambda>i. vi_severity i = Critical) issues;
          unsafeIssues = filter (\<lambda>i. vi_type i = unsafe_operation) issues
      in if length criticalIssues > 0 then False
         else if safetyChecks constraints \<and> length unsafeIssues > 0 then False
         else score \<ge> 0.6)"

definition validateResponse ::
  "ResponseValidator \<Rightarrow> AIResponse \<Rightarrow> PromptContext \<Rightarrow> ValidationConstraints \<Rightarrow> ValidationResult" where
  "validateResponse v response context constraints =
     (let issues = runRules (validationRules v) response context constraints [];
          score = calculateValidationScore issues response;
          allowExecution = shouldAllowExecution issues score constraints
      in \<lparr>vr_isValid =
            (length (filter (\<lambda>i. vi_severity i = Critical \<or> vi_severity i = High) issues) = 0),
          vr_score = score,
          vr_issues = issues,
          vr_allowExecution = allowExecution\<rparr>)"

text \<open>The condition "the content contains a forbidden-operation substring", as
  \<^verbatim>\<open>ConstraintComplianceRule\<close> tests it.\<close>

definition containsForbidden :: "AIResponse \<Rightarrow> ValidationConstraints \<Rightarrow> bool" where
  "containsForbidden response constraints =
     list_ex (\<lambda>forbidden. str_includes (toLowerCase (ar_content response)) (toLowerCase forbidden))
       (forbiddenOperations constraints)"

text \<open>Concrete inputs used below.\<close>

definition ctx_read_only :: PromptContext where
  "ctx_read_only =
     \<lparr>pc_userGoal = ''clean up'', pc_workingDirectory = ''/tmp'',
      pc_availableTools = [''read_file'', ''ls''], pc_constraints = []\<rparr>"

definition lenient_constraints :: ValidationConstraints where
  "lenient_constraints =
     \<lparr>minimumConfidence = 0.5, allowedTools = [], forbiddenOperations = [''delete''],
      requireReasoning = False, requireEvidence = False, safetyChecks = True,
      factChecking = False, maxToolCalls = 5\<rparr>"

definition strict_constraints :: ValidationConstraints where
  "strict_constraints = lenient_constraints\<lparr>requireReasoning := True\<rparr>"

definition rm_tool_response :: AIResponse where
  "rm_tool_response =
     \<lparr>ar_content = ''removing'',
      ar_toolCalls = [\<lparr>tc_name = ''rm_tool'', tc_parameters = [(''path'', JStr ''/tmp/x'')]\<rparr>],
      ar_reasoning = None, ar_confidence = None\<rparr>"

definition plain_response :: AIResponse where
  "plain_response =
     \<lparr>ar_content = ''All done.'', ar_toolCalls = [], ar_reasoning = None,
      ar_confidence = None\<rparr>"

section \<open>Reasoning engine\<close>

subsection \<open>Text helpers\<close>

text \<open>\<^verbatim>\<open>Array.prototype.join\<close>.\<close>

fun join :: "string \<Rightarrow> string list \<Rightarrow> string" where
  "join sep [] = []"
| "join sep [x] = x"
| "join sep (x # y # ys) = x @ sep @ join sep (y # ys)"

text \<open>The class \<^verbatim>\<open>\s\<close> on code units below 256: tab, line feed, vertical tab, form feed,
  carriage return, space and no-break space.\<close>

definition isSpace :: "char \<Rightarrow> bool" where
  "isSpace c = (of_char c \<in> {9, 10, 11, 12, 13, 32, 160 :: nat})"

text \<open>The class \<^verbatim>\<open>\w\<close>: digits, ASCII letters and the underscore.\<close>

definition isWordChar :: "char \<Rightarrow> bool" where
  "isWordChar c =
     (let n = of_char c :: nat
      in (48 \<le> n \<and> n \<le> 57) \<or> (65 \<le> n \<and> n \<le> 90) \<or> n = 95 \<or> (97 \<le> n \<and> n \<le> 122))"

text \<open>
  \<^verbatim>\<open>text.split(/\s+/)\<close>: the pieces between the maximal runs of white space. The empty
  string gives one empty piece; white space at the start or at the end gives an empty first
  or last piece.
\<close>

function splitWs_from :: "string \<Rightarrow> string \<Rightarrow> string list" where
  "splitWs_from [] piece = [piece]"
| "splitWs_from (c # cs) piece =
     (if isSpace c then piece # splitWs_from (dropWhile isSpace cs) []
      else splitWs_from cs (piece @ [c]))"
  by pat_completeness auto
termination
  by (relation "measure (\<lambda>(text, piece). length text)")
     (auto simp: less_Suc_eq_le length_dropWhile_le)

definition splitWs :: "string \<Rightarrow> string list" where
  "splitWs text = splitWs_from text []"

text \<open>
  The maximal runs of word characters of a text, in order. A pattern of the shape
  \<^verbatim>\<open>\b(w1|w2|...)\b\<close> whose alternatives consist of word characters can only match such a
  run as a whole: the match starts and ends at a word boundary and has no boundary inside.
\<close>

fun wordRuns_from :: "string \<Rightarrow> string \<Rightarrow> string list" where
  "wordRuns_from [] run = (if run = [] then [] else [run])"
| "wordRuns_from (c # cs) run =
     (if isWordChar c then wordRuns_from cs (run @ [c])
      else (if run = [] then [] else [run]) @ wordRuns_from cs [])"

definition wordRuns :: "string \<Rightarrow> string list" where
  "wordRuns text = wordRuns_from text []"

text \<open>
  \<^verbatim>\<open>Number.prototype.toFixed(2)\<close>: the nearest multiple of 1/100, the larger one on a
  tie, printed with two decimals; a negative number prints its sign and its magnitude.
\<close>

definition toFixed2 :: "rat \<Rightarrow> string" where
  "toFixed2 x =
     (let n = nat \<lfloor>\<bar>x\<bar> * 100 + 1 / 2\<rfloor>
      in (if x < 0 then ''-'' else '''') @ showNat (n div 100) @ ''.'' @
         [digitChar ((n div 10) mod 10), digitChar (n mod 10)])"

subsection \<open>Data model\<close>

datatype StepType = Observation | Hypothesis | Verification | Conclusion | Action

datatype StepValidationStatus = Pending | Validated | Rejected

datatype ChainStatus = Active | Completed | Failed | Paused

record ReasoningStep =
  step_id :: string
  step_type :: StepType
  step_content :: string
  step_confidence :: rat
  step_evidence :: "string list"
  step_assumptions :: "string list"
  step_alternatives :: "string list"
  step_validationStatus :: StepValidationStatus

record ReasoningContext =
  rc_availableTools :: "string list"
  rc_workingDirectory :: string
  rc_previousChains :: "string list"
  rc_constraints :: "string list"
  rc_timeoutMs :: nat
  rc_maxSteps :: nat
  rc_validationRequired :: bool

text \<open>The overall confidence is a number that can be \<^verbatim>\<open>NaN\<close> (written \<open>None\<close>): the mean
  over the validated steps of a chain without validated steps is \<^verbatim>\<open>0 / 0\<close>.\<close>

record ReasoningChain =
  chain_id :: string
  chain_goal :: string
  chain_steps :: "ReasoningStep list"
  chain_currentStep :: nat
  chain_overallConfidence :: "rat option"
  chain_status :: ChainStatus
  chain_context :: ReasoningContext

datatype ReasoningIssueType =
    r_logical_inconsistency
  | r_missing_evidence
  | r_weak_assumption
  | r_circular_reasoning
  | r_tool_availability
  | r_constraint_violation

record ReasoningIssue =
  ri_type :: ReasoningIssueType
  ri_severity :: Severity
  ri_stepId :: string
  ri_description :: string
  ri_suggestedFix :: string

record ReasoningValidation =
  rv_isValid :: bool
  rv_confidence :: "rat option"
  rv_issues :: "ReasoningIssue list"
  rv_suggestions :: "string list"

text \<open>The tiers \<^verbatim>\<open>low\<close>, \<^verbatim>\<open>medium\<close>, \<^verbatim>\<open>high\<close> of a risk level or a complexity.\<close>

datatype Level = LevelLow | LevelMedium | LevelHigh

record DecisionOption =
  opt_id :: string
  opt_description :: string
  opt_pros :: "string list"
  opt_cons :: "string list"
  opt_riskLevel :: Level
  opt_feasibilityScore :: rat
  opt_requiredTools :: "string list"

record DecisionPoint =
  dp_id :: string
  dp_question :: string
  dp_options :: "DecisionOption list"
  dp_selectedOption :: "string option"
  dp_rationale :: string
  dp_confidence :: rat

text \<open>
  The engine: the names of the tools of its registry, in the order
  \<^verbatim>\<open>getAllTools\<close> lists them, and the chains it owns, by identifier.
\<close>

record ReasoningEngine =
  re_toolNames :: "string list"
  activeChains :: "string \<rightharpoonup> ReasoningChain"

subsection \<open>Step validation rules\<close>

definition EvidenceValidationRule :: "ReasoningStep \<Rightarrow> ReasoningChain \<Rightarrow> ReasoningValidation" where
  "EvidenceValidationRule step chain =
     (let issues =
        (if step_type step = Conclusion \<and> length (step_evidence step) = 0
         then [\<lparr>ri_type = r_missing_evidence, ri_severity = High, ri_stepId = step_id step,
                ri_description = ''Conclusion lacks supporting evidence'',
                ri_suggestedFix = ''Add evidence from previous steps''\<rparr>]
         else [])
      in \<lparr>rv_isValid = (length issues = 0), rv_confidence = Some 1, rv_issues = issues,
          rv_suggestions = []\<rparr>)"

definition AssumptionValidationRule :: "ReasoningStep \<Rightarrow> ReasoningChain \<Rightarrow> ReasoningValidation" where
  "AssumptionValidationRule step chain =
     (let issues =
        (if length (step_assumptions step) > 3
         then [\<lparr>ri_type = r_weak_assumption, ri_severity = Medium, ri_stepId = step_id step,
                ri_description = ''Too many assumptions'',
                ri_suggestedFix = ''Reduce assumptions or provide more evidence''\<rparr>]
         else [])
      in \<lparr>rv_isValid = (length issues = 0), rv_confidence = Some 1, rv_issues = issues,
          rv_suggestions = []\<rparr>)"

definition StepLogicalConsistencyRule :: "ReasoningStep \<Rightarrow> ReasoningChain \<Rightarrow> ReasoningValidation" where
  "StepLogicalConsistencyRule step chain =
     (let issues =
        (if length (chain_steps chain) > 1
         then (let prevStep = chain_steps chain ! (length (chain_steps chain) - 2)
               in if step_type prevStep = Conclusion \<and> step_type step = Hypothesis
                  then [\<lparr>ri_type = r_logical_inconsistency, ri_severity = Medium,
                         ri_stepId = step_id step,
                         ri_description = ''New hypothesis after conclusion'',
                         ri_suggestedFix = ''Consider if new hypothesis is necessary''\<rparr>]
                  else [])
         else [])
      in \<lparr>rv_isValid = (length issues = 0), rv_confidence = Some 1, rv_issues = issues,
          rv_suggestions = []\<rparr>)"

definition ConstraintValidationRule :: "ReasoningStep \<Rightarrow> ReasoningChain \<Rightarrow> ReasoningValidation" where
  "ConstraintValidationRule step chain =
     (let issues = concat (map (\<lambda>constraint.
            if str_includes (toLowerCase (step_content step)) (toLowerCase constraint)
            then [\<lparr>ri_type = r_constraint_violation, ri_severity = High,
                   ri_stepId = step_id step,
                   ri_description = ''Violates constraint: '' @ constraint,
                   ri_suggestedFix = ''Modify approach to respect constraints''\<rparr>]
            else []) (rc_constraints (chain_context chain)))
      in \<lparr>rv_isValid = (length issues = 0), rv_confidence = Some 1, rv_issues = issues,
          rv_suggestions = []\<rparr>)"

definition stepValidationRules ::
  "(ReasoningStep \<Rightarrow> ReasoningChain \<Rightarrow> ReasoningValidation) list" where
  "stepValidationRules =
     [EvidenceValidationRule, AssumptionValidationRule, StepLogicalConsistencyRule,
      ConstraintValidationRule]"

subsection \<open>Confidence, similarity and tool tokens\<close>

definition isLogicallyConsistent :: "ReasoningStep \<Rightarrow> ReasoningStep \<Rightarrow> bool" where
  "isLogicallyConsistent prevStep currentStep =
     (if step_type prevStep = Hypothesis \<and> step_type currentStep = Verification then True
      else if step_type prevStep = Observation \<and> step_type currentStep = Hypothesis then True
      else if step_type prevStep = Verification \<and> step_type currentStep = Conclusion then True
      else False)"

definition calculateStepConfidence :: "ReasoningStep \<Rightarrow> ReasoningChain \<Rightarrow> rat" where
  "calculateStepConfidence step chain =
     (let c0 = 0.5;
          c1 = (if length (step_evidence step) > 0
                then c0 + min (of_nat (length (step_evidence step)) * 0.1) 0.3 else c0);
          c2 = (if length (step_assumptions step) = 0 then c1 + 0.1
                else c1 - min (of_nat (length (step_assumptions step)) * 0.05) 0.2);
          c3 = (case step_type step of
                  Observation \<Rightarrow> c2 + 0.1
                | Verification \<Rightarrow> c2 + 0.2
                | Conclusion \<Rightarrow> c2 + 0.1
                | _ \<Rightarrow> c2);
          c4 = (if length (chain_steps chain) > 1
                then (let previousStep = chain_steps chain ! (length (chain_steps chain) - 2)
                      in if isLogicallyConsistent previousStep step then c3 + 0.1 else c3)
                else c3)
      in min c4 1.0)"

definition calculateOverallConfidence :: "ReasoningChain \<Rightarrow> rat option" where
  "calculateOverallConfidence chain =
     (if length (chain_steps chain) = 0 then Some 0
      else
        let validSteps = filter (\<lambda>s. step_validationStatus s = Validated) (chain_steps chain);
            rejectedSteps = filter (\<lambda>s. step_validationStatus s = Rejected) (chain_steps chain);
            rejectionPenalty = of_nat (length rejectedSteps) * 0.1
        in if length validSteps = 0 then None
           else Some (max (foldl (\<lambda>sum step. sum + step_confidence step) 0 validSteps
                             / of_nat (length validSteps) - rejectionPenalty) 0))"

definition toolTokens :: "string list" where
  "toolTokens =
     [''read_file'', ''write_file'', ''edit'', ''ls'', ''grep'', ''shell'', ''web_fetch'',
      ''web_search'', ''glob'']"

text \<open>The pattern
  \<^verbatim>\<open>/\b(read_file|write_file|edit|ls|grep|shell|web_fetch|web_search|glob|mcp_\w+)\b/g\<close>.\<close>

definition extractToolsFromContent :: "string \<Rightarrow> string list" where
  "extractToolsFromContent content =
     filter (\<lambda>run. run \<in> set toolTokens \<or> (startsWith run ''mcp_'' \<and> length run > 4))
       (wordRuns content)"

definition calculateSimilarity :: "string \<Rightarrow> string \<Rightarrow> rat" where
  "calculateSimilarity text1 text2 =
     (let words1 = splitWs text1;
          words2 = splitWs text2;
          intersection = filter (\<lambda>word. word \<in> set words2) words1;
          union = remdups (words1 @ words2)
      in of_nat (length intersection) / of_nat (length union))"

text \<open>The loop runs over the steps of the chain except the last one
  (\<^verbatim>\<open>i < chain.steps.length - 1\<close>).\<close>

definition hasCircularReasoning :: "ReasoningStep \<Rightarrow> ReasoningChain \<Rightarrow> bool" where
  "hasCircularReasoning step chain =
     (let currentContent = toLowerCase (step_content step)
      in list_ex (\<lambda>prevStep.
           calculateSimilarity currentContent (toLowerCase (step_content prevStep)) > 0.8)
         (take (length (chain_steps chain) - 1) (chain_steps chain)))"

definition calculateValidationConfidence :: "ReasoningIssue list \<Rightarrow> rat" where
  "calculateValidationConfidence issues =
     max (foldl (\<lambda>confidence issue. confidence - severityPenalty (ri_severity issue)) 1 issues) 0"

subsection \<open>Operations\<close>

text \<open>The issues of the rules that report a step as not valid, in rule order.\<close>

fun applyStepRules ::
  "(ReasoningStep \<Rightarrow> ReasoningChain \<Rightarrow> ReasoningValidation) list \<Rightarrow> ReasoningStep \<Rightarrow>
   ReasoningChain \<Rightarrow> ReasoningIssue list \<times> string list \<Rightarrow> ReasoningIssue list \<times> string list" where
  "applyStepRules [] step chain acc = acc"
| "applyStepRules (rule # rules) step chain (issues, suggestions) =
     (let ruleResult = rule step chain
      in if \<not> rv_isValid ruleResult
         then applyStepRules rules step chain
                (issues @ rv_issues ruleResult, suggestions @ rv_suggestions ruleResult)
         else applyStepRules rules step chain (issues, suggestions))"

definition validateReasoningStep ::
  "ReasoningEngine \<Rightarrow> ReasoningStep \<Rightarrow> ReasoningChain \<Rightarrow> ReasoningValidation" where
  "validateReasoningStep eng step chain =
     (let (issues0, suggestions) = applyStepRules stepValidationRules step chain ([], []);
          issues1 =
            (if step_type step = Action
             then issues0 @ concat (map (\<lambda>tool.
                    if tool \<notin> set (re_toolNames eng)
                    then [\<lparr>ri_type = r_tool_availability, ri_severity = High,
                           ri_stepId = step_id step,
                           ri_description = ''Tool '' @ [CHR 0x27] @ tool @ [CHR 0x27] @ '' is not available'',
                           ri_suggestedFix =
                             ''Use available tools: '' @ join '', '' (re_toolNames eng)\<rparr>]
                    else []) (extractToolsFromContent (step_content step)))
             else issues0);
          issues =
            (if hasCircularReasoning step chain
             then issues1 @ [\<lparr>ri_type = r_circular_reasoning, ri_severity = High,
                              ri_stepId = step_id step,
                              ri_description = ''Circular reasoning detected'',
                              ri_suggestedFix = ''Provide new evidence or approach''\<rparr>]
             else issues1);
          criticalIssues = filter (\<lambda>i. ri_severity i = Critical) issues;
          highIssues = filter (\<lambda>i. ri_severity i = High) issues
      in \<lparr>rv_isValid = (length criticalIssues = 0 \<and> length highIssues = 0),
          rv_confidence = Some (calculateValidationConfidence issues),
          rv_issues = issues,
          rv_suggestions = suggestions\<rparr>)"

text \<open>\<^verbatim>\<open>startReasoning\<close>; the generated chain identifier is an input of the model.\<close>

definition startReasoning ::
  "ReasoningEngine \<Rightarrow> string \<Rightarrow> string \<Rightarrow> ReasoningContext \<Rightarrow> ReasoningChain \<times> ReasoningEngine" where
  "startReasoning eng newChainId goal context =
     (let initialStep =
            \<lparr>step_id = ''step-0'', step_type = Observation,
             step_content = ''Starting reasoning for goal: '' @ goal,
             step_confidence = 0.9, step_evidence = [''Goal: '' @ goal],
             step_assumptions = [], step_alternatives = [],
             step_validationStatus = Validated\<rparr>;
          chain =
            \<lparr>chain_id = newChainId, chain_goal = goal, chain_steps = [initialStep],
             chain_currentStep = 0, chain_overallConfidence = Some 0, chain_status = Active,
             chain_context = context\<rparr>
      in (chain, eng\<lparr>activeChains := (activeChains eng)(newChainId \<mapsto> chain)\<rparr>))"

text \<open>The step as \<^verbatim>\<open>addReasoningStep\<close> builds it before validation, with its confidence.\<close>

definition newStep ::
  "ReasoningChain \<Rightarrow> StepType \<Rightarrow> string \<Rightarrow> string list \<Rightarrow> string list \<Rightarrow> string list \<Rightarrow> ReasoningStep" where
  "newStep chain stepType content evidence assumptions alternatives =
     (let step =
            \<lparr>step_id = ''step-'' @ showNat (length (chain_steps chain)), step_type = stepType,
             step_content = content, step_confidence = 0, step_evidence = evidence,
             step_assumptions = assumptions, step_alternatives = alternatives,
             step_validationStatus = Pending\<rparr>
      in step\<lparr>step_confidence := calculateStepConfidence step chain\<rparr>)"

definition addReasoningStep ::
  "ReasoningEngine \<Rightarrow> string \<Rightarrow> StepType \<Rightarrow> string \<Rightarrow> string list \<Rightarrow> string list \<Rightarrow>
   string list \<Rightarrow> js_error + (ReasoningStep \<times> ReasoningEngine)" where
  "addReasoningStep eng chainId stepType content evidence assumptions alternatives =
     (case activeChains eng chainId of
        None \<Rightarrow> Inl (Error (''Reasoning chain '' @ chainId @ '' not found''))
      | Some chain \<Rightarrow>
          let step0 = newStep chain stepType content evidence assumptions alternatives;
              validation = validateReasoningStep eng step0 chain;
              step =
                (if rv_isValid validation
                 then step0\<lparr>step_validationStatus := Validated\<rparr>
                 else step0\<lparr>step_validationStatus := Rejected,
                        step_evidence := step_evidence step0 @
                          [''Validation issues: '' @
                             join '', '' (map ri_description (rv_issues validation))]\<rparr>);
              chain1 = chain\<lparr>chain_steps := chain_steps chain @ [step]\<rparr>;
              chain2 = chain1\<lparr>chain_currentStep := length (chain_steps chain1) - 1\<rparr>;
              chain3 = chain2\<lparr>chain_overallConfidence := calculateOverallConfidence chain2\<rparr>
          in Inr (step, eng\<lparr>activeChains := (activeChains eng)(chainId \<mapsto> chain3)\<rparr>))"

text \<open>
  \<^verbatim>\<open>makeDecision\<close>. Reading \<^verbatim>\<open>selectedOption.id\<close> on an empty option list throws
  before anything is written. The result carries the selected option, the decision point as
  updated, and the engine.
\<close>

definition makeDecision ::
  "ReasoningEngine \<Rightarrow> string \<Rightarrow> DecisionPoint \<Rightarrow> string option \<Rightarrow>
   js_error + (DecisionOption \<times> DecisionPoint \<times> ReasoningEngine)" where
  "makeDecision eng chainId decisionPoint rationale =
     (case dp_options decisionPoint of
        [] \<Rightarrow> Inl (TypeError (''Cannot read properties of undefined (reading '' @ [CHR 0x27] @ ''id'' @
               [CHR 0x27] @ '')''))
      | selectedOption # others \<Rightarrow>
          let score = toFixed2 (opt_feasibilityScore selectedOption);
              dp = decisionPoint
                \<lparr>dp_selectedOption := Some (opt_id selectedOption),
                 dp_rationale :=
                   (case rationale of
                      None \<Rightarrow> ''Selected based on highest feasibility score ('' @ score @ '')''
                    | Some r \<Rightarrow>
                        if r = [] then ''Selected based on highest feasibility score ('' @ score @ '')''
                        else r),
                 dp_confidence := opt_feasibilityScore selectedOption\<rparr>
          in case addReasoningStep eng chainId Conclusion
                    (''Decision made: '' @ opt_description selectedOption)
                    [''Feasibility score: '' @ score, ''Rationale: '' @ dp_rationale dp]
                    [''Option is feasible with available tools''] [] of
               Inl err \<Rightarrow> Inl err
             | Inr (step, eng') \<Rightarrow> Inr (selectedOption, dp, eng'))"

subsection \<open>The confidence formula in the specification's words\<close>

definition typeBonus :: "StepType \<Rightarrow> rat" where
  "typeBonus ty = (case ty of Observation \<Rightarrow> 0.1 | Verification \<Rightarrow> 0.2 | Conclusion \<Rightarrow> 0.1 | _ \<Rightarrow> 0)"

definition validTransition :: "StepType \<Rightarrow> StepType \<Rightarrow> bool" where
  "validTransition p c =
     ((p = Observation \<and> c = Hypothesis) \<or> (p = Hypothesis \<and> c = Verification) \<or>
      (p = Verification \<and> c = Conclusion))"

definition clamp01 :: "rat \<Rightarrow> rat" where
  "clamp01 x = max 0 (min 1 x)"

text \<open>
  The confidence as the specification words it: base, evidence bonus, assumption penalty,
  type bonus, and the transition bonus taken on the immediately preceding step, that is the
  last step of the chain when the new step is added.
\<close>

definition claimedConfidence :: "ReasoningChain \<Rightarrow> StepType \<Rightarrow> nat \<Rightarrow> nat \<Rightarrow> rat" where
  "claimedConfidence chain ty e a =
     clamp01 (0.5 + min (0.1 * of_nat e) 0.3
              - (if a > 0 then min (0.05 * of_nat a) 0.2 else 0)
              + typeBonus ty
              + (if chain_steps chain \<noteq> [] \<and>
                    validTransition (step_type (last (chain_steps chain))) ty
                 then 0.1 else 0))"

text \<open>The last two steps of a chain, or all of its steps when it has fewer.\<close>

definition lastTwo :: "ReasoningStep list \<Rightarrow> ReasoningStep list" where
  "lastTwo steps = drop (length steps - 2) steps"

text \<open>The same with the bonus of 0.1 for a step without assumptions, and with the
  transition bonus \<open>t\<close> left open.\<close>

definition amendedConfidence :: "StepType \<Rightarrow> nat \<Rightarrow> nat \<Rightarrow> rat \<Rightarrow> rat" where
  "amendedConfidence ty e a t =
     clamp01 (0.5 + min (0.1 * of_nat e) 0.3
              + (if a = 0 then 0.1 else - min (0.05 * of_nat a) 0.2)
              + typeBonus ty + t)"

subsection \<open>Concrete chains used below\<close>

definition build_context :: ReasoningContext where
  "build_context =
     \<lparr>rc_availableTools = [''read_file'', ''ls''], rc_workingDirectory = ''/tmp'',
      rc_previousChains = [], rc_constraints = [], rc_timeoutMs = 1000, rc_maxSteps = 10,
      rc_validationRequired = True\<rparr>"

definition engine0 :: ReasoningEngine where
  "engine0 = \<lparr>re_toolNames = [''read_file'', ''ls''], activeChains = Map.empty\<rparr>"

text \<open>A chain as \<^verbatim>\<open>startReasoning\<close> leaves it, and the same chain one step later.\<close>

definition chain1 :: ReasoningChain where
  "chain1 = fst (startReasoning engine0 ''c1'' ''build'' build_context)"

definition engine1 :: ReasoningEngine where
  "engine1 = snd (startReasoning engine0 ''c1'' ''build'' build_context)"

definition engine2 :: ReasoningEngine where
  "engine2 =
     (case addReasoningStep engine1 ''c1'' Observation ''the log shows a timeout'' [''log''] [] [] of
        Inl err \<Rightarrow> engine1
      | Inr (step, eng) \<Rightarrow> eng)"

definition chain2 :: ReasoningChain where
  "chain2 = (case activeChains engine2 ''c1'' of None \<Rightarrow> chain1 | Some chain \<Rightarrow> chain)"

definition one_option :: DecisionOption where
  "one_option =
     \<lparr>opt_id = ''opt-a'', opt_description = ''clear the cache'', opt_pros = [''fast''],
      opt_cons = [], opt_riskLevel = LevelLow, opt_feasibilityScore = 1,
      opt_requiredTools = [''ls'']\<rparr>"

definition decision_with :: "DecisionOption list \<Rightarrow> DecisionPoint" where
  "decision_with options =
     \<lparr>dp_id = ''decision-1'', dp_question = ''what next'', dp_options = options,
      dp_selectedOption = None, dp_rationale = [], dp_confidence = 0\<rparr>"

text \<open>What a call of \<^verbatim>\<open>addReasoningStep\<close> returned: the step, if any.\<close>

definition addedStep :: "js_error + (ReasoningStep \<times> ReasoningEngine) \<Rightarrow> ReasoningStep option" where
  "addedStep r = (case r of Inl err \<Rightarrow> None | Inr (step, eng) \<Rightarrow> Some step)"

section \<open>Hierarchical planner\<close>

subsection \<open>Data model\<close>

datatype PlanStepType = P_analysis | P_tool_call | P_verification | P_decision | P_synthesis

record PlanStep =
  ps_id :: string
  ps_title :: string
  ps_description :: string
  ps_type :: PlanStepType
  ps_dependencies :: "string list"
  ps_estimatedComplexity :: Level
  ps_requiredTools :: "string list"
  ps_expectedOutput :: "string option"
  ps_validationCriteria :: "string list option"
  ps_fallbackStrategy :: "string option"

text \<open>A step result without its \<^verbatim>\<open>executionTime\<close>, which is a difference of clock
  readings.\<close>

record StepResult =
  sr_stepId :: string
  sr_success :: bool
  sr_output :: string
  sr_toolsUsed :: "string list"
  sr_validationPassed :: bool
  sr_confidence :: rat
  sr_warnings :: "string list"
  sr_errors :: "string list"

record HierarchicalPlan =
  plan_id :: string
  plan_title :: string
  plan_description :: string
  plan_goal :: string
  plan_steps :: "PlanStep list"
  plan_estimatedDuration :: nat
  plan_riskLevel :: Level
  plan_availableTools :: "string list"
  plan_contextConstraints :: "string list"

record PlanValidation =
  pv_isValid :: bool
  pv_errors :: "string list"
  pv_warnings :: "string list"
  pv_suggestions :: "string list"

text \<open>
  The execution context. Of its tool registry the model keeps the names for which
  \<^verbatim>\<open>getTool\<close> returns a tool.
\<close>

record PlanExecutionContext =
  pec_currentStep :: nat
  pec_completedSteps :: "StepResult list"
  pec_availableTools :: "string list"
  pec_registeredTools :: "string list"
  pec_userGoal :: string
  pec_workingDirectory :: string
  pec_timeoutMs :: nat

text \<open>
  The planner: the names of the tools of its registry, in the order \<^verbatim>\<open>getAllTools\<close>
  lists them, the plans it stores and the results of their executions.
\<close>

record HierarchicalPlanner =
  hp_toolNames :: "string list"
  activePlans :: "string \<rightharpoonup> HierarchicalPlan"
  executionResults :: "string \<rightharpoonup> StepResult list"

subsection \<open>Goal decomposition\<close>

text \<open>
  The tests \<^verbatim>\<open>/\b(w1|w2|...)\b/i\<close> on the goal: some maximal run of word characters is,
  up to the case of its letters, one of the listed words.
\<close>

definition hasWord :: "string list \<Rightarrow> string \<Rightarrow> bool" where
  "hasWord keywords goal = list_ex (\<lambda>run. toLowerCase run \<in> set keywords) (wordRuns goal)"

definition isFileSystemTask :: "string \<Rightarrow> bool" where
  "isFileSystemTask goal =
     hasWord [''file'', ''directory'', ''folder'', ''create'', ''delete'', ''move'', ''copy'',
              ''read'', ''write''] goal"

definition isCodeTask :: "string \<Rightarrow> bool" where
  "isCodeTask goal =
     hasWord [''code'', ''function'', ''class'', ''method'', ''debug'', ''refactor'', ''test'',
              ''compile''] goal"

definition isAnalysisTask :: "string \<Rightarrow> bool" where
  "isAnalysisTask goal =
     hasWord [''analyze'', ''review'', ''examine'', ''inspect'', ''understand'', ''explain''] goal"

definition createFileSystemSteps :: "string \<Rightarrow> string list \<Rightarrow> PlanStep list" where
  "createFileSystemSteps goal availableTools =
     [\<lparr>ps_id = ''fs-1'', ps_title = ''Check File System State'',
       ps_description = ''Examine current file system state'', ps_type = P_tool_call,
       ps_dependencies = [''verification-1''], ps_estimatedComplexity = LevelLow,
       ps_requiredTools = [''ls'', ''read_file''],
       ps_expectedOutput = Some ''Current file system state'',
       ps_validationCriteria = Some [''File system state is clear''],
       ps_fallbackStrategy = None\<rparr>]"

definition createCodeSteps :: "string \<Rightarrow> string list \<Rightarrow> PlanStep list" where
  "createCodeSteps goal availableTools =
     [\<lparr>ps_id = ''code-1'', ps_title = ''Analyze Code Structure'',
       ps_description = ''Examine existing code structure'', ps_type = P_tool_call,
       ps_dependencies = [''verification-1''], ps_estimatedComplexity = LevelMedium,
       ps_requiredTools = [''read_file'', ''grep''],
       ps_expectedOutput = Some ''Code structure analysis'',
       ps_validationCriteria = Some [''Code structure is understood''],
       ps_fallbackStrategy = None\<rparr>]"

definition createAnalysisSteps :: "string \<Rightarrow> string list \<Rightarrow> PlanStep list" where
  "createAnalysisSteps goal availableTools =
     [\<lparr>ps_id = ''analysis-2'', ps_title = ''Deep Analysis'',
       ps_description = ''Perform detailed analysis of the target'', ps_type = P_analysis,
       ps_dependencies = [''verification-1''], ps_estimatedComplexity = LevelMedium,
       ps_requiredTools = [''read_file'', ''grep'', ''ls''],
       ps_expectedOutput = Some ''Detailed analysis results'',
       ps_validationCriteria = Some [''Analysis is thorough and accurate''],
       ps_fallbackStrategy = None\<rparr>]"

definition createGeneralSteps :: "string \<Rightarrow> string list \<Rightarrow> PlanStep list" where
  "createGeneralSteps goal availableTools =
     [\<lparr>ps_id = ''general-1'', ps_title = ''Execute General Task'',
       ps_description = ''Execute the requested task'', ps_type = P_tool_call,
       ps_dependencies = [''verification-1''], ps_estimatedComplexity = LevelMedium,
       ps_requiredTools = take 3 availableTools,
       ps_expectedOutput = Some ''Task execution results'',
       ps_validationCriteria = Some [''Task completed successfully''],
       ps_fallbackStrategy = None\<rparr>]"

text \<open>
  The synthesis step is pushed last. Its dependencies \<^verbatim>\<open>steps.slice(0, -1)\<close> are
  computed before the push, from the steps collected so far: they are all of these steps but
  the last one, so the step of the goal's category is not among them.
\<close>

definition decomposeGoal ::
  "string \<Rightarrow> string \<Rightarrow> string list \<Rightarrow> string list \<Rightarrow> PlanStep list" where
  "decomposeGoal goal context availableTools constraints =
     (let steps0 =
            [\<lparr>ps_id = ''analysis-1'', ps_title = ''Analyze Request'',
              ps_description = ''Understand the user'' @ [CHR 0x27] @ ''s goal and current context'',
              ps_type = P_analysis, ps_dependencies = [],
              ps_estimatedComplexity = LevelLow,
              ps_requiredTools = [''read_file'', ''ls'', ''grep''],
              ps_expectedOutput = Some ''Understanding of current state and requirements'',
              ps_validationCriteria = Some [''Goal is clearly understood'', ''Context is analyzed''],
              ps_fallbackStrategy = Some ''Ask for clarification if goal is unclear''\<rparr>,
             \<lparr>ps_id = ''verification-1'', ps_title = ''Verify Tool Availability'',
              ps_description = ''Confirm all required tools are available and accessible'',
              ps_type = P_verification, ps_dependencies = [''analysis-1''],
              ps_estimatedComplexity = LevelLow, ps_requiredTools = [],
              ps_expectedOutput = Some ''List of available and missing tools'',
              ps_validationCriteria = Some [''All required tools are available''],
              ps_fallbackStrategy = Some ''Suggest alternative tools or approaches''\<rparr>];
          steps1 = steps0 @
            (if isFileSystemTask goal then createFileSystemSteps goal availableTools
             else if isCodeTask goal then createCodeSteps goal availableTools
             else if isAnalysisTask goal then createAnalysisSteps goal availableTools
             else createGeneralSteps goal availableTools)
      in steps1 @
           [\<lparr>ps_id = ''synthesis-1'', ps_title = ''Synthesize Results'',
             ps_description = ''Combine results from all steps and provide final answer'',
             ps_type = P_synthesis, ps_dependencies = map ps_id (butlast steps1),
             ps_estimatedComplexity = LevelMedium, ps_requiredTools = [],
             ps_expectedOutput = Some (''Complete answer to user'' @ [CHR 0x27] @ ''s goal''),
             ps_validationCriteria = Some [''All steps completed successfully'', ''Goal achieved''],
             ps_fallbackStrategy = Some ''Provide partial results with explanation''\<rparr>])"

subsection \<open>Cycle detection and topological order\<close>

text \<open>
  The depth-first search of \<^verbatim>\<open>hasCyclicDependencies\<close>. The state is the pair of the
  sets \<^verbatim>\<open>visited\<close> and \<^verbatim>\<open>recursionStack\<close>; \<open>hasCycle_deps\<close> is the loop over the
  dependencies of a step, which returns at the first cycle found.
\<close>

type_synonym dfs_state = "string set \<times> string set"

function hasCycle :: "PlanStep list \<Rightarrow> string \<Rightarrow> dfs_state \<Rightarrow> bool \<times> dfs_state"
  and hasCycle_deps :: "PlanStep list \<Rightarrow> string list \<Rightarrow> dfs_state \<Rightarrow> bool \<times> dfs_state" where
  "hasCycle steps stepId (visited, recursionStack) =
     (if stepId \<in> recursionStack then (True, (visited, recursionStack))
      else if stepId \<in> visited then (False, (visited, recursionStack))
      else
        (case find (\<lambda>s. ps_id s = stepId) steps of
           None \<Rightarrow> (False, (insert stepId visited, insert stepId recursionStack - {stepId}))
         | Some step \<Rightarrow>
             (case hasCycle_deps steps (ps_dependencies step)
                     (insert stepId visited, insert stepId recursionStack) of
                (True, st) \<Rightarrow> (True, st)
              | (False, (visited', recursionStack')) \<Rightarrow>
                  (False, (visited', recursionStack' - {stepId})))))"
| "hasCycle_deps steps [] st = (False, st)"
| "hasCycle_deps steps (dep # deps) st =
     (case hasCycle steps dep st of
        (True, st') \<Rightarrow> (True, st')
      | (False, st') \<Rightarrow> hasCycle_deps steps deps st')"
  by pat_completeness auto

text \<open>Termination: a step is entered only while it is not yet visited, and the visited set only
  grows.\<close>

lemma hasCycle_visited_grows:
  "hasCycle_hasCycle_deps_dom (Inl (steps, stepId, st)) \<Longrightarrow>
     fst st \<subseteq> fst (snd (hasCycle steps stepId st))"
  "hasCycle_hasCycle_deps_dom (Inr (steps, deps, st)) \<Longrightarrow>
     fst st \<subseteq> fst (snd (hasCycle_deps steps deps st))"
proof (induct steps stepId st and steps deps st rule: hasCycle_hasCycle_deps.pinduct)
  case (1 steps stepId visited recursionStack)
  then show ?case
    by (auto simp: hasCycle.psimps split: option.splits prod.splits bool.splits)
next
  case (2 steps st)
  then show ?case by (simp add: hasCycle_deps.psimps)
next
  case (3 steps dep deps st)
  obtain x y where xy: "hasCycle steps dep st = (x, y)" by (cases "hasCycle steps dep st")
  show ?case
  proof (cases x)
    case True
    with xy 3(1,2) show ?thesis by (simp add: hasCycle_deps.psimps)
  next
    case False
    with xy 3(3) [of x y] have "fst y \<subseteq> fst (snd (hasCycle_deps steps deps y))" by simp
    moreover from xy 3(2) have "fst st \<subseteq> fst y" by simp
    ultimately show ?thesis using xy False 3(1) by (simp add: hasCycle_deps.psimps)
  qed
qed

definition dfs_measure ::
  "PlanStep list \<times> string \<times> dfs_state + PlanStep list \<times> string list \<times> dfs_state \<Rightarrow> nat \<times> nat" where
  "dfs_measure x =
     (case x of
        Inl (steps, stepId, st) \<Rightarrow> (card (set (map ps_id steps) - fst st), 0)
      | Inr (steps, deps, st) \<Rightarrow> (card (set (map ps_id steps) - fst st), Suc (length deps)))"

termination hasCycle
proof (relation "inv_image (less_than <*lex*> less_than) dfs_measure")
  show "wf (inv_image (less_than <*lex*> less_than) dfs_measure)"
    by (intro wf_inv_image wf_lex_prod wf_less_than)
next
  fix steps :: "PlanStep list" and stepId visited recursionStack and x2 :: PlanStep
  assume "stepId \<notin> recursionStack" "stepId \<notin> visited"
    "find (\<lambda>s. ps_id s = stepId) steps = Some x2"
  then have "stepId \<in> set (map ps_id steps)"
    by (auto simp: find_Some_iff)
  with \<open>stepId \<notin> visited\<close>
  have "card (set (map ps_id steps) - insert stepId visited) < card (set (map ps_id steps) - visited)"
    by (intro psubset_card_mono) auto
  then show "(Inr (steps, ps_dependencies x2, insert stepId visited, insert stepId recursionStack),
        Inl (steps, stepId, visited, recursionStack))
       \<in> inv_image (less_than <*lex*> less_than) dfs_measure"
    by (simp add: dfs_measure_def)
next
  fix steps :: "PlanStep list" and dep deps st
  show "(Inl (steps, dep, st), Inr (steps, dep # deps, st))
       \<in> inv_image (less_than <*lex*> less_than) dfs_measure"
    by (simp add: dfs_measure_def)
next
  fix steps :: "PlanStep list" and dep deps st x y
  assume "(x, y) = hasCycle steps dep st"
    and dom: "hasCycle_hasCycle_deps_dom (Inl (steps, dep, st))"
  with hasCycle_visited_grows(1) [OF dom] have "fst st \<subseteq> fst y"
    by (metis snd_conv)
  then have "card (set (map ps_id steps) - fst y) \<le> card (set (map ps_id steps) - fst st)"
    by (intro card_mono) auto
  then show "(Inr (steps, deps, y), Inr (steps, dep # deps, st))
       \<in> inv_image (less_than <*lex*> less_than) dfs_measure"
    by (auto simp: dfs_measure_def)
qed

text \<open>The outer loop over the steps of the plan.\<close>

fun hasCycle_steps :: "PlanStep list \<Rightarrow> PlanStep list \<Rightarrow> dfs_state \<Rightarrow> bool" where
  "hasCycle_steps steps [] st = False"
| "hasCycle_steps steps (step # rest) st =
     (case hasCycle steps (ps_id step) st of
        (True, st') \<Rightarrow> True
      | (False, st') \<Rightarrow> hasCycle_steps steps rest st')"

definition hasCyclicDependencies :: "PlanStep list \<Rightarrow> bool" where
  "hasCyclicDependencies steps = hasCycle_steps steps steps ({}, {})"

text \<open>
  The depth-first visit of \<^verbatim>\<open>topologicalSort\<close>. The state is the list \<^verbatim>\<open>sorted\<close>
  with the sets \<^verbatim>\<open>visited\<close> and \<^verbatim>\<open>visiting\<close>; meeting a step that is being visited
  throws.
\<close>

type_synonym sort_state = "PlanStep list \<times> string set \<times> string set"

function visit :: "PlanStep list \<Rightarrow> string \<Rightarrow> sort_state \<Rightarrow> js_error + sort_state"
  and visit_deps :: "PlanStep list \<Rightarrow> string list \<Rightarrow> sort_state \<Rightarrow> js_error + sort_state" where
  "visit steps stepId (sortedSteps, visited, visiting) =
     (if stepId \<in> visited then Inr (sortedSteps, visited, visiting)
      else if stepId \<in> visiting then Inl (Error ''Circular dependency detected'')
      else
        (case find (\<lambda>s. ps_id s = stepId) steps of
           None \<Rightarrow> Inr (sortedSteps, visited, insert stepId visiting - {stepId})
         | Some step \<Rightarrow>
             (case visit_deps steps (ps_dependencies step)
                     (sortedSteps, visited, insert stepId visiting) of
                Inl err \<Rightarrow> Inl err
              | Inr (sortedSteps', visited', visiting') \<Rightarrow>
                  Inr (sortedSteps' @ [step], insert stepId visited', visiting' - {stepId}))))"
| "visit_deps steps [] st = Inr st"
| "visit_deps steps (dep # deps) st =
     (case visit steps dep st of
        Inl err \<Rightarrow> Inl err
      | Inr st' \<Rightarrow> visit_deps steps deps st')"
  by pat_completeness auto

text \<open>Termination: a step is entered only while it is neither visited nor being visited, and
  a visit that returns leaves every such step marked.\<close>

definition marked :: "sort_state \<Rightarrow> string set" where
  "marked st = fst (snd st) \<union> snd (snd st)"

lemma visit_marked_grows:
  "visit_visit_deps_dom (Inl (steps, stepId, st)) \<Longrightarrow>
     visit steps stepId st = Inr st' \<Longrightarrow> marked st \<subseteq> marked st'"
  "visit_visit_deps_dom (Inr (steps, deps, st)) \<Longrightarrow>
     visit_deps steps deps st = Inr st' \<Longrightarrow> marked st \<subseteq> marked st'"
proof (induct steps stepId st and steps deps st arbitrary: st' and st'
    rule: visit_visit_deps.pinduct)
  case (1 steps stepId sortedSteps visited visiting)
  show ?case
  proof (cases "stepId \<in> visited \<or> stepId \<in> visiting")
    case True
    with 1(1,3) show ?thesis by (auto simp: visit.psimps split: if_splits)
  next
    case False
    show ?thesis
    proof (cases "find (\<lambda>s. ps_id s = stepId) steps")
      case None
      with False 1(1,3) show ?thesis by (auto simp: visit.psimps marked_def)
    next
      case (Some step)
      with False 1(1,3) obtain sortedSteps' visited' visiting' where
        d: "visit_deps steps (ps_dependencies step) (sortedSteps, visited, insert stepId visiting)
              = Inr (sortedSteps', visited', visiting')"
        and r: "st' = (sortedSteps' @ [step], insert stepId visited', visiting' - {stepId})"
        by (auto simp: visit.psimps split: sum.splits)
      from 1(2) [OF _ _ Some d] False
      have "marked (sortedSteps, visited, insert stepId visiting) \<subseteq> marked (sortedSteps', visited', visiting')"
        by simp
      with r show ?thesis by (auto simp: marked_def)
    qed
  qed
next
  case (2 steps st)
  then show ?case by (simp add: visit_deps.psimps)
next
  case (3 steps dep deps st)
  from 3(1,4) obtain st1 where a: "visit steps dep st = Inr st1"
    and b: "visit_deps steps deps st1 = Inr st'"
    by (auto simp: visit_deps.psimps split: sum.splits)
  from 3(2) [OF a] 3(3) [OF a b] show ?case by blast
qed

definition sort_measure ::
  "PlanStep list \<times> string \<times> sort_state + PlanStep list \<times> string list \<times> sort_state \<Rightarrow> nat \<times> nat" where
  "sort_measure x =
     (case x of
        Inl (steps, stepId, st) \<Rightarrow> (card (set (map ps_id steps) - marked st), 0)
      | Inr (steps, deps, st) \<Rightarrow> (card (set (map ps_id steps) - marked st), Suc (length deps)))"

termination visit
proof (relation "inv_image (less_than <*lex*> less_than) sort_measure")
  show "wf (inv_image (less_than <*lex*> less_than) sort_measure)"
    by (intro wf_inv_image wf_lex_prod wf_less_than)
next
  fix steps :: "PlanStep list" and stepId visited visiting and x2 :: PlanStep
    and sortedSteps :: "PlanStep list"
  assume "stepId \<notin> visited" "stepId \<notin> visiting"
    "find (\<lambda>s. ps_id s = stepId) steps = Some x2"
  then have "stepId \<in> set (map ps_id steps)" "stepId \<notin> visited \<union> visiting"
    by (auto simp: find_Some_iff)
  then have "card (set (map ps_id steps) - (visited \<union> insert stepId visiting))
      < card (set (map ps_id steps) - (visited \<union> visiting))"
    by (intro psubset_card_mono) auto
  then show "(Inr (steps, ps_dependencies x2, sortedSteps, visited, insert stepId visiting),
        Inl (steps, stepId, sortedSteps, visited, visiting))
       \<in> inv_image (less_than <*lex*> less_than) sort_measure"
    by (simp add: sort_measure_def marked_def)
next
  fix steps :: "PlanStep list" and dep deps and st :: sort_state
  show "(Inl (steps, dep, st), Inr (steps, dep # deps, st))
       \<in> inv_image (less_than <*lex*> less_than) sort_measure"
    by (simp add: sort_measure_def)
next
  fix steps :: "PlanStep list" and dep deps and st st' :: sort_state
  assume "visit steps dep st = Inr st'"
    and dom: "visit_visit_deps_dom (Inl (steps, dep, st))"
  then have "marked st \<subseteq> marked st'"
    using visit_marked_grows(1) by blast
  then have "card (set (map ps_id steps) - marked st') \<le> card (set (map ps_id steps) - marked st)"
    by (intro card_mono) auto
  then show "(Inr (steps, deps, st'), Inr (steps, dep # deps, st))
       \<in> inv_image (less_than <*lex*> less_than) sort_measure"
    by (auto simp: sort_measure_def)
qed

text \<open>The outer loop over the steps of the plan.\<close>

fun visit_steps :: "PlanStep list \<Rightarrow> PlanStep list \<Rightarrow> sort_state \<Rightarrow> js_error + sort_state" where
  "visit_steps steps [] st = Inr st"
| "visit_steps steps (step # rest) st =
     (case visit steps (ps_id step) st of
        Inl err \<Rightarrow> Inl err
      | Inr st' \<Rightarrow> visit_steps steps rest st')"

definition topologicalSort :: "PlanStep list \<Rightarrow> js_error + PlanStep list" where
  "topologicalSort steps =
     (case visit_steps steps steps ([], {}, {}) of
        Inl err \<Rightarrow> Inl err
      | Inr (sortedSteps, visited, visiting) \<Rightarrow> Inr sortedSteps)"

subsection \<open>Plan validation and creation\<close>

definition quoted :: "string \<Rightarrow> string" where
  "quoted s = [CHR 0x27] @ s @ [CHR 0x27]"

definition validatePlan :: "HierarchicalPlanner \<Rightarrow> HierarchicalPlan \<Rightarrow> PlanValidation" where
  "validatePlan planner plan =
     (let errors0 =
            (if hasCyclicDependencies (plan_steps plan)
             then [''Plan contains circular dependencies''] else []);
          allTools = hp_toolNames planner;
          errors1 = errors0 @ concat (map (\<lambda>step. concat (map (\<lambda>tool.
              if tool \<notin> set allTools
              then [''Required tool '' @ quoted tool @ '' is not available for step '' @
                    quoted (ps_id step)]
              else []) (ps_requiredTools step))) (plan_steps plan));
          stepIds = set (map ps_id (plan_steps plan));
          errors = errors1 @ concat (map (\<lambda>step. concat (map (\<lambda>dep.
              if dep \<notin> stepIds
              then [''Step '' @ quoted (ps_id step) @ '' depends on non-existent step '' @
                    quoted dep]
              else []) (ps_dependencies step))) (plan_steps plan));
          highComplexitySteps =
            filter (\<lambda>s. ps_estimatedComplexity s = LevelHigh) (plan_steps plan);
          warnings0 =
            (if length highComplexitySteps > 3
             then [''Plan has many high-complexity steps, consider breaking down further'']
             else []);
          warnings = warnings0 @ concat (map (\<lambda>step.
              if (case ps_validationCriteria step of None \<Rightarrow> True | Some cs \<Rightarrow> cs = [])
              then [''Step '' @ quoted (ps_id step) @ '' lacks validation criteria'']
              else []) (plan_steps plan))
      in \<lparr>pv_isValid = (length errors = 0), pv_errors = errors, pv_warnings = warnings,
          pv_suggestions = []\<rparr>)"

text \<open>\<^verbatim>\<open>String.prototype.trim\<close> and
  \<^verbatim>\<open>goal.split('.')[0].trim().substring(0, 50)\<close>.\<close>

definition trim :: "string \<Rightarrow> string" where
  "trim s = rev (dropWhile isSpace (rev (dropWhile isSpace s)))"

definition extractPlanTitle :: "string \<Rightarrow> string" where
  "extractPlanTitle goal = take 50 (trim (takeWhile (\<lambda>c. c \<noteq> CHR ''.'') goal))"

definition calculateEstimatedDuration :: "PlanStep list \<Rightarrow> nat" where
  "calculateEstimatedDuration steps =
     foldl (\<lambda>total step.
        case ps_estimatedComplexity step of
          LevelLow \<Rightarrow> total + 30
        | LevelMedium \<Rightarrow> total + 120
        | LevelHigh \<Rightarrow> total + 300) 0 steps"

definition assessRiskLevel :: "PlanStep list \<Rightarrow> Level" where
  "assessRiskLevel steps =
     (let highComplexityCount = length (filter (\<lambda>s. ps_estimatedComplexity s = LevelHigh) steps)
      in if highComplexityCount > 2 then LevelHigh
         else if highComplexityCount > 0 then LevelMedium
         else LevelLow)"

text \<open>\<^verbatim>\<open>createPlan\<close>; the generated plan identifier is an input of the model.\<close>

definition createPlan ::
  "HierarchicalPlanner \<Rightarrow> string \<Rightarrow> string \<Rightarrow> string \<Rightarrow> string list \<Rightarrow>
   js_error + (HierarchicalPlan \<times> HierarchicalPlanner)" where
  "createPlan planner newPlanId goal context constraints =
     (let availableTools = hp_toolNames planner;
          plan0 =
            \<lparr>plan_id = newPlanId, plan_title = extractPlanTitle goal, plan_description = goal,
             plan_goal = goal, plan_steps = [], plan_estimatedDuration = 0,
             plan_riskLevel = LevelMedium, plan_availableTools = availableTools,
             plan_contextConstraints = constraints\<rparr>;
          plan1 = plan0\<lparr>plan_steps := decomposeGoal goal context availableTools constraints\<rparr>;
          validation = validatePlan planner plan1
      in if \<not> pv_isValid validation
         then Inl (Error (''Invalid plan: '' @ join '', '' (pv_errors validation)))
         else
           let plan2 = plan1\<lparr>plan_estimatedDuration := calculateEstimatedDuration (plan_steps plan1)\<rparr>;
               plan3 = plan2\<lparr>plan_riskLevel := assessRiskLevel (plan_steps plan2)\<rparr>
           in Inr (plan3, planner\<lparr>activePlans := (activePlans planner)(plan_id plan3 \<mapsto> plan3)\<rparr>))"

subsection \<open>Plan execution\<close>

text \<open>\<^verbatim>\<open>criteria.toLowerCase().split(' ')[0]\<close> is the text before the first space.\<close>

definition validateStepOutput :: "PlanStep \<Rightarrow> string \<Rightarrow> bool" where
  "validateStepOutput step output =
     (case ps_validationCriteria step of
        None \<Rightarrow> True
      | Some criteria \<Rightarrow>
          list_all (\<lambda>c. str_includes (toLowerCase output)
                         (takeWhile (\<lambda>ch. ch \<noteq> CHR '' '') (toLowerCase c))) criteria)"

definition calculateStepConfidence_plan :: "PlanStep \<Rightarrow> string \<Rightarrow> bool \<Rightarrow> rat" where
  "calculateStepConfidence_plan step output validationPassed =
     (let c0 = 0.5;
          c1 = (if validationPassed then c0 + 0.3 else c0);
          c2 = (if length output > 50 then c1 + 0.1 else c1);
          c3 = (if ps_estimatedComplexity step = LevelLow then c2 + 0.1 else c2)
      in min c3 1.0)"

text \<open>
  \<^verbatim>\<open>executeStep\<close>. The registry of the model cannot throw, and neither can the step
  bodies, so the \<^verbatim>\<open>catch\<close> branch is not reached.
\<close>

definition executeStep :: "PlanStep \<Rightarrow> PlanExecutionContext \<Rightarrow> StepResult list \<Rightarrow> StepResult" where
  "executeStep step context previousResults =
     (let errors = concat (map (\<lambda>toolName.
            if toolName \<notin> set (pec_registeredTools context)
            then [''Required tool '' @ quoted toolName @ '' not available'']
            else []) (ps_requiredTools step))
      in if length errors > 0
         then \<lparr>sr_stepId = ps_id step, sr_success = False,
               sr_output = ''Tool validation failed: '' @ join '', '' errors,
               sr_toolsUsed = [], sr_validationPassed = False, sr_confidence = 0,
               sr_warnings = [], sr_errors = errors\<rparr>
         else
           let (output, toolsUsed) =
                 (case ps_type step of
                    P_analysis \<Rightarrow> (''Analysis completed for step: '' @ ps_title step, [])
                  | P_tool_call \<Rightarrow>
                      (''Tool call completed for step: '' @ ps_title step, ps_requiredTools step)
                  | P_verification \<Rightarrow> (''Verification completed for step: '' @ ps_title step, [])
                  | P_decision \<Rightarrow> (''Decision completed for step: '' @ ps_title step, [])
                  | P_synthesis \<Rightarrow>
                      (''Synthesis completed. Successfully executed '' @
                       showNat (length (filter sr_success previousResults)) @ '' out of '' @
                       showNat (length previousResults) @ '' steps.'', []));
               validationPassed = validateStepOutput step output;
               confidence = calculateStepConfidence_plan step output validationPassed
           in \<lparr>sr_stepId = ps_id step, sr_success = True, sr_output = output,
               sr_toolsUsed = toolsUsed, sr_validationPassed = validationPassed,
               sr_confidence = confidence, sr_warnings = [], sr_errors = []\<rparr>)"

definition depsSatisfied :: "PlanStep \<Rightarrow> StepResult list \<Rightarrow> bool" where
  "depsSatisfied step results =
     list_all (\<lambda>depId. list_ex (\<lambda>r. sr_stepId r = depId \<and> sr_success r) results)
       (ps_dependencies step)"

text \<open>The result synthesised for a step whose dependencies are not satisfied.\<close>

definition failedResult :: "PlanStep \<Rightarrow> StepResult" where
  "failedResult step =
     \<lparr>sr_stepId = ps_id step, sr_success = False,
      sr_output = ''Dependencies not satisfied: '' @ join '', '' (ps_dependencies step),
      sr_toolsUsed = [], sr_validationPassed = False, sr_confidence = 0,
      sr_warnings = [], sr_errors = [''Dependencies not satisfied'']\<rparr>"

text \<open>\<^verbatim>\<open>!step.fallbackStrategy\<close>: an absent strategy and the empty text are both falsy.\<close>

definition noFallback :: "PlanStep \<Rightarrow> bool" where
  "noFallback step = (case ps_fallbackStrategy step of None \<Rightarrow> True | Some s \<Rightarrow> s = [])"

text \<open>The loop of \<^verbatim>\<open>executePlan\<close> over the sorted steps, with the results so far.\<close>

fun executeLoop :: "PlanExecutionContext \<Rightarrow> PlanStep list \<Rightarrow> StepResult list \<Rightarrow> StepResult list" where
  "executeLoop context [] results = results"
| "executeLoop context (step # rest) results =
     (if \<not> depsSatisfied step results
      then executeLoop context rest (results @ [failedResult step])
      else
        let stepResult = executeStep step context results;
            results' = results @ [stepResult]
        in if \<not> sr_success stepResult \<and> noFallback step then results'
           else executeLoop context rest results')"

definition executePlan ::
  "HierarchicalPlanner \<Rightarrow> string \<Rightarrow> PlanExecutionContext \<Rightarrow>
   js_error + (StepResult list \<times> HierarchicalPlanner)" where
  "executePlan planner planId context =
     (case activePlans planner planId of
        None \<Rightarrow> Inl (Error (''Plan '' @ planId @ '' not found''))
      | Some plan \<Rightarrow>
          (case topologicalSort (plan_steps plan) of
             Inl err \<Rightarrow> Inl err
           | Inr sortedSteps \<Rightarrow>
               let results = executeLoop context sortedSteps []
               in Inr (results,
                       planner\<lparr>executionResults := (executionResults planner)(planId \<mapsto> results)\<rparr>)))"

subsection \<open>Notions used in the properties of the planner\<close>

text \<open>What the loop of \<^verbatim>\<open>executePlan\<close> records for a step, given the results so far, and
  whether it leaves the loop after the step.\<close>

definition stepOutcome :: "PlanExecutionContext \<Rightarrow> PlanStep \<Rightarrow> StepResult list \<Rightarrow> StepResult" where
  "stepOutcome context step results =
     (if depsSatisfied step results then executeStep step context results else failedResult step)"

definition haltsAfter :: "PlanExecutionContext \<Rightarrow> PlanStep \<Rightarrow> StepResult list \<Rightarrow> bool" where
  "haltsAfter context step results =
     (depsSatisfied step results \<and> \<not> sr_success (executeStep step context results) \<and>
      noFallback step)"

text \<open>What a call of \<^verbatim>\<open>executePlan\<close> returned: the results, if any.\<close>

definition resultsOf ::
  "js_error + (StepResult list \<times> HierarchicalPlanner) \<Rightarrow> StepResult list option" where
  "resultsOf r = (case r of Inl err \<Rightarrow> None | Inr (results, planner) \<Rightarrow> Some results)"

subsection \<open>Concrete plans used below\<close>

definition planner0 :: HierarchicalPlanner where
  "planner0 =
     \<lparr>hp_toolNames = [''read_file'', ''ls'', ''grep''], activePlans = Map.empty,
      executionResults = Map.empty\<rparr>"

text \<open>The plan that \<^verbatim>\<open>createPlan\<close> builds for a file-system goal.\<close>

definition folder_steps :: "PlanStep list" where
  "folder_steps = decomposeGoal ''clean the folder'' [] [''read_file'', ''ls'', ''grep''] []"

definition planner1 :: HierarchicalPlanner where
  "planner1 =
     (case createPlan planner0 ''p1'' ''clean the folder'' [] [] of
        Inl err \<Rightarrow> planner0
      | Inr (plan, planner) \<Rightarrow> planner)"

text \<open>An execution context whose registry has every tool, and one that lacks
  \<^verbatim>\<open>read_file\<close>.\<close>

definition full_context :: PlanExecutionContext where
  "full_context =
     \<lparr>pec_currentStep = 0, pec_completedSteps = [],
      pec_availableTools = [''read_file'', ''ls'', ''grep''],
      pec_registeredTools = [''read_file'', ''ls'', ''grep''],
      pec_userGoal = ''clean the folder'', pec_workingDirectory = ''/tmp'',
      pec_timeoutMs = 1000\<rparr>"

definition context_without_read :: PlanExecutionContext where
  "context_without_read = full_context\<lparr>pec_registeredTools := [''ls'', ''grep'']\<rparr>"

text \<open>A plan of two steps: \<open>a\<close> without dependencies, which needs \<^verbatim>\<open>read_file\<close>, and
  \<open>b\<close>, which depends on \<open>a\<close>; with and without a fallback strategy for \<open>a\<close>.\<close>

definition step_a :: "string option \<Rightarrow> PlanStep" where
  "step_a fallback =
     \<lparr>ps_id = ''a'', ps_title = ''Read the input'', ps_description = ''Read the input file'',
      ps_type = P_tool_call, ps_dependencies = [], ps_estimatedComplexity = LevelLow,
      ps_requiredTools = [''read_file''], ps_expectedOutput = None,
      ps_validationCriteria = Some [''Tool call completed''], ps_fallbackStrategy = fallback\<rparr>"

definition step_b :: PlanStep where
  "step_b =
     \<lparr>ps_id = ''b'', ps_title = ''Summarise'', ps_description = ''Summarise the input'',
      ps_type = P_analysis, ps_dependencies = [''a''], ps_estimatedComplexity = LevelLow,
      ps_requiredTools = [], ps_expectedOutput = None,
      ps_validationCriteria = Some [''Analysis completed''], ps_fallbackStrategy = None\<rparr>"

definition plan_ab :: "string option \<Rightarrow> HierarchicalPlan" where
  "plan_ab fallback =
     \<lparr>plan_id = ''ab'', plan_title = ''Summarise the input'',
      plan_description = ''Summarise the input'', plan_goal = ''Summarise the input'',
      plan_steps = [step_a fallback, step_b], plan_estimatedDuration = 60,
      plan_riskLevel = LevelLow, plan_availableTools = [''read_file'', ''ls'', ''grep''],
      plan_contextConstraints = []\<rparr>"

definition planner_ab :: "string option \<Rightarrow> HierarchicalPlanner" where
  "planner_ab fallback = planner0\<lparr>activePlans := [''ab'' \<mapsto> plan_ab fallback]\<rparr>"




subsection \<open>The step-dependency graph\<close>






section \<open>Properties of the response validator\<close>

lemma runRules_keeps: "set issues \<subseteq> set (runRules rules response context constraints issues)"
proof (induction rules arbitrary: issues)
  case Nil
  show ?case by simp
next
  case (Cons rule rules)
  show ?case
  proof (cases "rule_validate rule response context constraints")
    case (Inl err)
    have "set issues \<subseteq> set (issues @ [ruleFailureIssue])" by auto
    also have "\<dots> \<subseteq> set (runRules rules response context constraints (issues @ [ruleFailureIssue]))"
      by (rule Cons.IH)
    finally show ?thesis using Inl by simp
  next
    case (Inr ruleIssues)
    have "set issues \<subseteq> set (issues @ ruleIssues)" by auto
    also have "\<dots> \<subseteq> set (runRules rules response context constraints (issues @ ruleIssues))"
      by (rule Cons.IH)
    finally show ?thesis using Inr by simp
  qed
qed

lemma runRules_contains:
  assumes "rule \<in> set rules"
    and "rule_validate rule response context constraints = Inr ruleIssues"
  shows "set ruleIssues \<subseteq> set (runRules rules response context constraints issues)"
  using assms
proof (induction rules arbitrary: issues)
  case Nil
  then show ?case by simp
next
  case (Cons r rules)
  show ?case
  proof (cases "r = rule")
    case True
    have "set ruleIssues \<subseteq> set (issues @ ruleIssues)" by auto
    also have "\<dots> \<subseteq> set (runRules rules response context constraints (issues @ ruleIssues))"
      by (rule runRules_keeps)
    finally show ?thesis using True Cons.prems(2) by simp
  next
    case False
    with Cons.prems have "rule \<in> set rules" by simp
    then show ?thesis
      using Cons.IH Cons.prems(2) by (cases "rule_validate r response context constraints") simp_all
  qed
qed

lemma ToolAvailabilityRule_critical:
  assumes "tc \<in> set (ar_toolCalls response)"
    and "tc_name tc \<notin> set (pc_availableTools context)"
  shows "\<exists>ruleIssues i. rule_validate ToolAvailabilityRule response context constraints = Inr ruleIssues
           \<and> i \<in> set ruleIssues \<and> vi_severity i = Critical"
  using assms
  by (auto simp: ToolAvailabilityRule_def ToolAvailabilityRule_validate_def intro!: bexI [of _ tc])

lemma shouldAllowExecution_iff:
  "shouldAllowExecution issues score constraints \<longleftrightarrow>
     \<not> list_ex (\<lambda>i. vi_severity i = Critical) issues \<and>
     \<not> (safetyChecks constraints \<and> list_ex (\<lambda>i. vi_type i = unsafe_operation) issues) \<and>
     score \<ge> 0.6"
  by (auto simp: shouldAllowExecution_def Let_def list_ex_iff filter_empty_conv)

text \<open>
  C1. A validator whose rule list holds the tool-availability rule (the constructed
  validator does, and so does every validator extended by further rules) answers a response
  that calls a tool absent from \<^verbatim>\<open>context.availableTools\<close> with a critical issue and
  with \<^verbatim>\<open>allowExecution = false\<close>, whatever the score. For every validator, the gate is
  closed by a critical issue, closed by an unsafe-operation issue when the safety checks are
  enabled, and otherwise open exactly when the score is at least 0.6.
\<close>

theorem validateResponse_gate:
  "(ToolAvailabilityRule \<in> set (validationRules v) \<and>
    list_ex (\<lambda>tc. tc_name tc \<notin> set (pc_availableTools context)) (ar_toolCalls response)
    \<longrightarrow> list_ex (\<lambda>i. vi_severity i = Critical)
          (vr_issues (validateResponse v response context constraints))
        \<and> \<not> vr_allowExecution (validateResponse v response context constraints))
   \<and> (vr_allowExecution (validateResponse v response context constraints) \<longleftrightarrow>
        \<not> list_ex (\<lambda>i. vi_severity i = Critical)
            (vr_issues (validateResponse v response context constraints)) \<and>
        \<not> (safetyChecks constraints \<and>
           list_ex (\<lambda>i. vi_type i = unsafe_operation)
             (vr_issues (validateResponse v response context constraints))) \<and>
        vr_score (validateResponse v response context constraints) \<ge> 0.6)"
proof -
  let ?R = "validateResponse v response context constraints"
  have gate: "vr_allowExecution ?R \<longleftrightarrow>
        \<not> list_ex (\<lambda>i. vi_severity i = Critical) (vr_issues ?R) \<and>
        \<not> (safetyChecks constraints \<and> list_ex (\<lambda>i. vi_type i = unsafe_operation) (vr_issues ?R)) \<and>
        vr_score ?R \<ge> 0.6"
    by (simp add: validateResponse_def Let_def shouldAllowExecution_iff)
  have crit: "list_ex (\<lambda>i. vi_severity i = Critical) (vr_issues ?R)"
    if rule: "ToolAvailabilityRule \<in> set (validationRules v)"
      and call: "list_ex (\<lambda>tc. tc_name tc \<notin> set (pc_availableTools context)) (ar_toolCalls response)"
  proof -
    from call obtain tc where "tc \<in> set (ar_toolCalls response)"
      and "tc_name tc \<notin> set (pc_availableTools context)"
      by (auto simp: list_ex_iff)
    then obtain ruleIssues i
      where "rule_validate ToolAvailabilityRule response context constraints = Inr ruleIssues"
        and "i \<in> set ruleIssues" and "vi_severity i = Critical"
      using ToolAvailabilityRule_critical by blast
    with rule have "i \<in> set (runRules (validationRules v) response context constraints [])"
      using runRules_contains by blast
    with \<open>vi_severity i = Critical\<close> show ?thesis
      by (auto simp: validateResponse_def Let_def list_ex_iff)
  qed
  from gate crit show ?thesis by blast
qed

theorem validateResponse_gate_witness:
  "ToolAvailabilityRule \<in> set (validationRules new_ResponseValidator) \<and>
   list_ex (\<lambda>tc. tc_name tc \<notin> set (pc_availableTools ctx_read_only))
     (ar_toolCalls rm_tool_response) \<and>
   list_ex (\<lambda>i. vi_severity i = Critical)
     (vr_issues (validateResponse new_ResponseValidator rm_tool_response ctx_read_only
        lenient_constraints)) \<and>
   \<not> vr_allowExecution (validateResponse new_ResponseValidator rm_tool_response ctx_read_only
        lenient_constraints)"
proof -
  have rule: "ToolAvailabilityRule \<in> set (validationRules new_ResponseValidator)"
    by (simp add: new_ResponseValidator_def initializeValidationRules_def)
  have call: "list_ex (\<lambda>tc. tc_name tc \<notin> set (pc_availableTools ctx_read_only))
     (ar_toolCalls rm_tool_response)"
    by (simp add: rm_tool_response_def ctx_read_only_def)
  from rule call
    validateResponse_gate [of new_ResponseValidator ctx_read_only rm_tool_response
      lenient_constraints]
  show ?thesis by blast
qed

lemma forbidden_none:
  "\<not> containsForbidden response constraints \<Longrightarrow>
   ConstraintComplianceRule_validate response context constraints = Inr []"
  by (auto simp: containsForbidden_def ConstraintComplianceRule_validate_def list_ex_iff)

lemma plain_issues:
  assumes "ar_toolCalls response = []" and "noReasoning response"
    and "\<not> containsForbidden response constraints"
  shows "runRules initializeValidationRules response context constraints [] =
     (if requireReasoning constraints
      then [\<lparr>vi_type = missing_reasoning, vi_severity = High, vi_location = ''reasoning''\<rparr>]
      else []) @
     (case ar_confidence response of
        None \<Rightarrow> []
      | Some c \<Rightarrow>
          if c \<noteq> 0 \<and> c < minimumConfidence constraints
          then [\<lparr>vi_type = low_confidence, vi_severity = Medium, vi_location = ''response''\<rparr>]
          else [])"
proof -
  have lc: "LogicalConsistencyRule_validate response context constraints = Inr []"
    using assms(2) by (auto simp: LogicalConsistencyRule_validate_def noReasoning_def split: option.splits)
  show ?thesis
    using assms lc forbidden_none [OF assms(3), of "context"]
    by (simp add: initializeValidationRules_def ToolAvailabilityRule_def
        ToolAvailabilityRule_validate_def ParameterValidationRule_def
        ParameterValidationRule_validate_def SafetyCheckRule_def SafetyCheckRule_validate_def
        ReasoningValidationRule_def ReasoningValidationRule_validate_def
        ConfidenceValidationRule_def ConfidenceValidationRule_validate_def
        ConstraintComplianceRule_def HallucinationDetectionRule_def
        HallucinationDetectionRule_validate_def LogicalConsistencyRule_def)
qed

text \<open>
  C8 (as amended). A response of the constructed validator with no tool calls, no reasoning
  steps and no forbidden-operation substring in its content is always allowed to execute.
  Its score is 1 exactly when the constraints do not require reasoning and the self-reported
  confidence is absent, zero, or between the minimum confidence and 0.8: required reasoning
  costs 0.2, a confidence below the minimum costs 0.1, a confidence above 0.8 adds 0.05.
\<close>

theorem validateResponse_plain:
  assumes "ar_toolCalls response = []" and "noReasoning response"
    and "\<not> containsForbidden response constraints"
  shows "vr_allowExecution (validateResponse new_ResponseValidator response context constraints)
    \<and> (vr_score (validateResponse new_ResponseValidator response context constraints) = 1 \<longleftrightarrow>
         \<not> requireReasoning constraints \<and>
         (case ar_confidence response of
            None \<Rightarrow> True
          | Some c \<Rightarrow> c = 0 \<or> (minimumConfidence constraints \<le> c \<and> c \<le> 0.8)))"
  using assms(2)
  by (auto simp: validateResponse_def new_ResponseValidator_def Let_def plain_issues [OF assms]
      calculateValidationScore_def shouldAllowExecution_def split: option.splits)


lemma plain_hyps:
  "ar_toolCalls plain_response = [] \<and> noReasoning plain_response \<and>
   \<not> containsForbidden plain_response strict_constraints \<and>
   \<not> containsForbidden plain_response lenient_constraints"
  by (simp add: plain_response_def noReasoning_def containsForbidden_def strict_constraints_def
      lenient_constraints_def toLowerCase_def startsWith_def)

text \<open>
  The claim as stated fails when reasoning is required: the missing reasoning is a
  high-severity issue and the score is 0.8.
\<close>

theorem validateResponse_plain_counterexample:
  "ar_toolCalls plain_response = [] \<and> noReasoning plain_response \<and>
   \<not> containsForbidden plain_response strict_constraints \<and>
   vr_score (validateResponse new_ResponseValidator plain_response ctx_read_only
     strict_constraints) = 4 / 5 \<and>
   vr_score (validateResponse new_ResponseValidator plain_response ctx_read_only
     strict_constraints) \<noteq> 1"
proof -
  have "runRules initializeValidationRules plain_response ctx_read_only strict_constraints [] =
      [\<lparr>vi_type = missing_reasoning, vi_severity = High, vi_location = ''reasoning''\<rparr>]"
    using plain_hyps
    by (simp add: plain_issues) (simp add: plain_response_def strict_constraints_def)
  then have "vr_score (validateResponse new_ResponseValidator plain_response ctx_read_only
     strict_constraints) = 4 / 5"
    using plain_hyps
    by (simp add: validateResponse_def new_ResponseValidator_def Let_def
        calculateValidationScore_def) (simp add: plain_response_def)
  with plain_hyps show ?thesis by simp
qed

theorem validateResponse_plain_witness:
  "ar_toolCalls plain_response = [] \<and> noReasoning plain_response \<and>
   \<not> containsForbidden plain_response lenient_constraints \<and>
   vr_allowExecution (validateResponse new_ResponseValidator plain_response ctx_read_only
     lenient_constraints) \<and>
   vr_score (validateResponse new_ResponseValidator plain_response ctx_read_only
     lenient_constraints) = 1"
proof -
  have a: "ar_toolCalls plain_response = []" and b: "noReasoning plain_response"
    and c: "\<not> containsForbidden plain_response lenient_constraints"
    using plain_hyps by simp_all
  have d: "\<not> requireReasoning lenient_constraints" "ar_confidence plain_response = None"
    by (simp_all add: lenient_constraints_def plain_response_def)
  from validateResponse_plain [OF a b c, of ctx_read_only] a b c d
  show ?thesis by simp
qed

section \<open>Properties of the reasoning engine\<close>

lemma calculateStepConfidence_bounds:
  "3 / 10 \<le> calculateStepConfidence step chain \<and> calculateStepConfidence step chain \<le> 1"
  by (auto simp: calculateStepConfidence_def Let_def min_def split: StepType.splits)

lemma addReasoningStep_Inr:
  assumes "addReasoningStep eng chainId ty content evidence assumptions alternatives = Inr (step, eng')"
  obtains chain where "activeChains eng chainId = Some chain"
    and "step_confidence step =
           step_confidence (newStep chain ty content evidence assumptions alternatives)"
    and "step_type step = ty"
  using assms
  by (auto simp: addReasoningStep_def Let_def newStep_def split: option.splits if_splits)

lemma newStep_confidence:
  "step_confidence (newStep chain ty content evidence assumptions alternatives) =
   calculateStepConfidence
     \<lparr>step_id = ''step-'' @ showNat (length (chain_steps chain)), step_type = ty,
      step_content = content, step_confidence = 0, step_evidence = evidence,
      step_assumptions = assumptions, step_alternatives = alternatives,
      step_validationStatus = Pending\<rparr> chain"
  by (simp add: newStep_def Let_def)

lemma clamp01_nonneg: "0 \<le> x \<Longrightarrow> clamp01 x = min x 1"
  by (simp add: clamp01_def min_def max_def)

lemma typeBonus_nonneg: "0 \<le> typeBonus ty"
  by (cases ty) (simp_all add: typeBonus_def)

lemma evidence_term: "(0::rat) \<le> min (1 / 10 * of_nat e) (3 / 10)"
  by simp

lemma assumption_term:
  "- (2 / 10) \<le> (if a = 0 then 1 / 10 else - min (5 / 100 * (of_nat a :: rat)) (2 / 10))"
  by (simp add: min_def)

lemma amended_sum_nonneg:
  assumes "0 \<le> t"
  shows "0 \<le> 5 / 10 + min (1 / 10 * of_nat e) (3 / 10)
              + (if a = 0 then 1 / 10 else - min (5 / 100 * (of_nat a :: rat)) (2 / 10))
              + typeBonus ty + t"
  using assms evidence_term [of e] assumption_term [of a] typeBonus_nonneg [of ty]
  by linarith

lemma calculateStepConfidence_sum:
  "calculateStepConfidence step chain =
     min (5 / 10 + min (1 / 10 * of_nat (length (step_evidence step))) (3 / 10)
          + (if length (step_assumptions step) = 0 then 1 / 10
             else - min (5 / 100 * of_nat (length (step_assumptions step))) (2 / 10))
          + typeBonus (step_type step)
          + (if length (chain_steps chain) > 1 \<and>
                isLogicallyConsistent (chain_steps chain ! (length (chain_steps chain) - 2)) step
             then 1 / 10 else 0)) 1"
proof -
  have ev: "(if length (step_evidence step) > 0
             then (5 / 10 :: rat) + min (of_nat (length (step_evidence step)) * (1 / 10)) (3 / 10)
             else 5 / 10)
            = 5 / 10 + min (1 / 10 * of_nat (length (step_evidence step))) (3 / 10)"
    by (simp add: mult.commute)
  show ?thesis
    unfolding calculateStepConfidence_def Let_def
    by (cases "step_type step") (simp_all add: typeBonus_def mult.commute)
qed

lemma calculateStepConfidence_formula:
  "calculateStepConfidence step chain =
     amendedConfidence (step_type step) (length (step_evidence step))
       (length (step_assumptions step))
       (if length (chain_steps chain) > 1 \<and>
           isLogicallyConsistent (chain_steps chain ! (length (chain_steps chain) - 2)) step
        then 1 / 10 else 0)"
proof -
  define t :: rat where "t = (if length (chain_steps chain) > 1 \<and>
           isLogicallyConsistent (chain_steps chain ! (length (chain_steps chain) - 2)) step
        then 1 / 10 else 0)"
  define S :: rat where "S = 5 / 10 + min (1 / 10 * of_nat (length (step_evidence step))) (3 / 10)
          + (if length (step_assumptions step) = 0 then 1 / 10
             else - min (5 / 100 * of_nat (length (step_assumptions step))) (2 / 10))
          + typeBonus (step_type step) + t"
  have "0 \<le> t" by (simp add: t_def)
  then have "0 \<le> S"
    unfolding S_def by (rule amended_sum_nonneg)
  then have "clamp01 S = min S 1" by (rule clamp01_nonneg)
  moreover have "calculateStepConfidence step chain = min S 1"
    unfolding S_def t_def by (rule calculateStepConfidence_sum)
  moreover have "amendedConfidence (step_type step) (length (step_evidence step))
       (length (step_assumptions step)) t = clamp01 S"
    unfolding amendedConfidence_def S_def by simp
  ultimately show ?thesis unfolding t_def by simp
qed

lemma isLogicallyConsistent_types:
  "isLogicallyConsistent p c = validTransition (step_type p) (step_type c)"
  by (auto simp: isLogicallyConsistent_def validTransition_def)


lemma engine1_chain: "activeChains engine1 ''c1'' = Some chain1"
  by (simp add: engine1_def chain1_def startReasoning_def Let_def)

lemma engine2_chain: "activeChains engine2 ''c1'' = Some chain2"
  by code_simp

lemma chain2_steps:
  "map step_type (chain_steps chain2) = [Observation, Observation]"
  by code_simp

lemma addedStep_Some: "addedStep r = Some s \<Longrightarrow> \<exists>eng'. r = Inr (s, eng')"
  by (auto simp: addedStep_def split: sum.splits)

lemma engine1_add_action:
  "addedStep (addReasoningStep engine1 ''c1'' Action ''consider options'' [] [] []) =
   Some \<lparr>step_id = ''step-1'', step_type = Action, step_content = ''consider options'',
         step_confidence = 3 / 5, step_evidence = [], step_assumptions = [],
         step_alternatives = [], step_validationStatus = Validated\<rparr>"
  by code_simp

lemma engine2_add_hypothesis:
  "addedStep (addReasoningStep engine2 ''c1'' Hypothesis ''the cache is stale'' [''log''] [] []) =
   Some \<lparr>step_id = ''step-2'', step_type = Hypothesis, step_content = ''the cache is stale'',
         step_confidence = 4 / 5, step_evidence = [''log''], step_assumptions = [],
         step_alternatives = [], step_validationStatus = Validated\<rparr>"
  by code_simp

text \<open>
  C6. The confidence of every step that \<^verbatim>\<open>addReasoningStep\<close> creates lies in the
  interval from 0 to 1, for every step type, content, evidence list and assumption list
  (of any length, so in particular for 0 to 10 items each).
\<close>

theorem addReasoningStep_confidence_bounds:
  assumes "addReasoningStep eng chainId ty content evidence assumptions alternatives = Inr (step, eng')"
  shows "0 \<le> step_confidence step \<and> step_confidence step \<le> 1"
proof -
  from assms obtain chain where
    "step_confidence step =
       step_confidence (newStep chain ty content evidence assumptions alternatives)"
    by (rule addReasoningStep_Inr)
  then obtain s where c: "step_confidence step = calculateStepConfidence s chain"
    by (simp add: newStep_confidence)
  have "3 / 10 \<le> calculateStepConfidence s chain" "calculateStepConfidence s chain \<le> 1"
    using calculateStepConfidence_bounds by simp_all
  with c show ?thesis by simp
qed

theorem addReasoningStep_confidence_bounds_witness:
  "addedStep (addReasoningStep engine1 ''c1'' Action ''consider options'' [] [] []) =
     Some \<lparr>step_id = ''step-1'', step_type = Action, step_content = ''consider options'',
         step_confidence = 3 / 5, step_evidence = [], step_assumptions = [],
         step_alternatives = [], step_validationStatus = Validated\<rparr>
   \<and> (0::rat) \<le> 3 / 5 \<and> (3 / 5 :: rat) \<le> 1"
proof -
  from addedStep_Some [OF engine1_add_action] obtain eng' where
    "addReasoningStep engine1 ''c1'' Action ''consider options'' [] [] [] =
       Inr (\<lparr>step_id = ''step-1'', step_type = Action, step_content = ''consider options'',
         step_confidence = 3 / 5, step_evidence = [], step_assumptions = [],
         step_alternatives = [], step_validationStatus = Validated\<rparr>, eng')" ..
  from addReasoningStep_confidence_bounds [OF this] engine1_add_action
  show ?thesis by simp
qed

lemma lastTwo_holds_code_step:
  "2 \<le> length steps \<Longrightarrow> steps ! (length steps - 2) \<in> set (lastTwo steps)"
  unfolding lastTwo_def
  by (subst Cons_nth_drop_Suc [symmetric]) simp_all

text \<open>
  C5 (as amended). The confidence of a step added by \<^verbatim>\<open>addReasoningStep\<close> is: base
  0.5, plus min(0.1 per evidence item, 0.3), plus 0.1 when the step has no assumptions and
  minus min(0.05 per assumption, 0.2) when it has some, plus the type bonus (observation 0.1,
  verification 0.2, conclusion 0.1, others 0), plus a transition bonus, clamped to the
  interval from 0 to 1. The transition bonus is 0.1 when the chain has at least two steps
  and each of its last two steps forms, with the new step, one of the transitions
  observation to hypothesis, hypothesis to verification, verification to conclusion; it is
  0 when none of the last two steps of the chain (none of its steps, when it has fewer)
  forms such a transition with the new step; in the remaining cases it is 0 or 0.1.
\<close>

theorem reasoning_confidence_formula:
  assumes add: "addReasoningStep eng chainId ty content evidence assumptions alternatives
                  = Inr (step, eng')"
    and chain: "activeChains eng chainId = Some chain"
  shows "(step_confidence step = amendedConfidence ty (length evidence) (length assumptions) 0
          \<or> step_confidence step
               = amendedConfidence ty (length evidence) (length assumptions) (1 / 10))
       \<and> (2 \<le> length (chain_steps chain) \<and>
            list_all (\<lambda>p. validTransition (step_type p) ty) (lastTwo (chain_steps chain)) \<longrightarrow>
            step_confidence step
              = amendedConfidence ty (length evidence) (length assumptions) (1 / 10))
       \<and> (list_all (\<lambda>p. \<not> validTransition (step_type p) ty) (lastTwo (chain_steps chain)) \<longrightarrow>
            step_confidence step = amendedConfidence ty (length evidence) (length assumptions) 0)"
proof -
  from add chain have "step_confidence step =
      step_confidence (newStep chain ty content evidence assumptions alternatives)"
    by (auto elim!: addReasoningStep_Inr)
  then have conf: "step_confidence step =
     amendedConfidence ty (length evidence) (length assumptions)
       (if length (chain_steps chain) > 1 \<and>
           validTransition (step_type (chain_steps chain ! (length (chain_steps chain) - 2))) ty
        then 1 / 10 else 0)"
    by (simp add: newStep_confidence calculateStepConfidence_formula isLogicallyConsistent_types)
  have a: "step_confidence step = amendedConfidence ty (length evidence) (length assumptions) 0
          \<or> step_confidence step
               = amendedConfidence ty (length evidence) (length assumptions) (1 / 10)"
    using conf by (simp split: if_splits)
  have b: "step_confidence step
      = amendedConfidence ty (length evidence) (length assumptions) (1 / 10)"
    if "2 \<le> length (chain_steps chain) \<and>
        list_all (\<lambda>p. validTransition (step_type p) ty) (lastTwo (chain_steps chain))"
  proof -
    from that lastTwo_holds_code_step [of "chain_steps chain"]
    have "validTransition (step_type (chain_steps chain ! (length (chain_steps chain) - 2))) ty"
      by (simp add: list_all_iff)
    with that conf show ?thesis by simp
  qed
  have c: "step_confidence step = amendedConfidence ty (length evidence) (length assumptions) 0"
    if n: "list_all (\<lambda>p. \<not> validTransition (step_type p) ty) (lastTwo (chain_steps chain))"
  proof (cases "2 \<le> length (chain_steps chain)")
    case True
    with n lastTwo_holds_code_step [of "chain_steps chain"]
    have "\<not> validTransition (step_type (chain_steps chain ! (length (chain_steps chain) - 2))) ty"
      by (simp add: list_all_iff)
    with conf show ?thesis by simp
  next
    case False
    with conf show ?thesis by simp
  qed
  from a b c show ?thesis by blast
qed

lemma chain1_no_transition:
  "list_all (\<lambda>p. \<not> validTransition (step_type p) Action) (lastTwo (chain_steps chain1))"
  by code_simp

lemma chain2_transitions:
  "2 \<le> length (chain_steps chain2) \<and>
   list_all (\<lambda>p. validTransition (step_type p) Hypothesis) (lastTwo (chain_steps chain2))"
  by code_simp

theorem reasoning_confidence_formula_witness:
  "activeChains engine1 ''c1'' = Some chain1 \<and>
   addedStep (addReasoningStep engine1 ''c1'' Action ''consider options'' [] [] []) =
     Some \<lparr>step_id = ''step-1'', step_type = Action, step_content = ''consider options'',
         step_confidence = 3 / 5, step_evidence = [], step_assumptions = [],
         step_alternatives = [], step_validationStatus = Validated\<rparr> \<and>
   list_all (\<lambda>p. \<not> validTransition (step_type p) Action) (lastTwo (chain_steps chain1)) \<and>
   amendedConfidence Action 0 0 0 = 3 / 5 \<and>
   activeChains engine2 ''c1'' = Some chain2 \<and>
   map step_type (chain_steps chain2) = [Observation, Observation] \<and>
   addedStep (addReasoningStep engine2 ''c1'' Hypothesis ''the cache is stale'' [''log''] [] []) =
     Some \<lparr>step_id = ''step-2'', step_type = Hypothesis, step_content = ''the cache is stale'',
         step_confidence = 4 / 5, step_evidence = [''log''], step_assumptions = [],
         step_alternatives = [], step_validationStatus = Validated\<rparr> \<and>
   2 \<le> length (chain_steps chain2) \<and>
   list_all (\<lambda>p. validTransition (step_type p) Hypothesis) (lastTwo (chain_steps chain2)) \<and>
   amendedConfidence Hypothesis 1 0 (1 / 10) = 4 / 5"
proof -
  from addedStep_Some [OF engine1_add_action] obtain e1 where
    a1: "addReasoningStep engine1 ''c1'' Action ''consider options'' [] [] [] =
       Inr (\<lparr>step_id = ''step-1'', step_type = Action, step_content = ''consider options'',
         step_confidence = 3 / 5, step_evidence = [], step_assumptions = [],
         step_alternatives = [], step_validationStatus = Validated\<rparr>, e1)" ..
  from addedStep_Some [OF engine2_add_hypothesis] obtain e2 where
    a2: "addReasoningStep engine2 ''c1'' Hypothesis ''the cache is stale'' [''log''] [] [] =
       Inr (\<lparr>step_id = ''step-2'', step_type = Hypothesis, step_content = ''the cache is stale'',
         step_confidence = 4 / 5, step_evidence = [''log''], step_assumptions = [],
         step_alternatives = [], step_validationStatus = Validated\<rparr>, e2)" ..
  from reasoning_confidence_formula [OF a1 engine1_chain] chain1_no_transition
  have "amendedConfidence Action 0 0 0 = 3 / 5" by simp
  moreover from reasoning_confidence_formula [OF a2 engine2_chain] chain2_transitions
  have "amendedConfidence Hypothesis 1 0 (1 / 10) = 4 / 5" by simp
  ultimately show ?thesis
    using engine1_chain engine2_chain chain2_steps engine1_add_action engine2_add_hypothesis
      chain1_no_transition chain2_transitions
    by simp
qed

text \<open>
  On a chain without steps the stated formula gives the confidence of a step that has
  assumptions: a conclusion step with one evidence item and one assumption gets 0.65.
\<close>

lemma fresh_chain_conclusion:
  "addedStep (addReasoningStep engine1 ''c1'' Conclusion ''done'' [''log''] [''cache''] []) =
     Some \<lparr>step_id = ''step-1'', step_type = Conclusion, step_content = ''done'',
         step_confidence = 13 / 20, step_evidence = [''log''], step_assumptions = [''cache''],
         step_alternatives = [], step_validationStatus = Validated\<rparr> \<and>
   claimedConfidence chain1 Conclusion 1 1 = 13 / 20"
  by code_simp

text \<open>
  The claim as stated fails on a step without assumptions: added to a fresh chain, an
  action step without evidence and without assumptions gets the confidence 0.6, where the
  stated formula gives 0.5.
\<close>

theorem reasoning_confidence_formula_counterexample:
  "activeChains engine1 ''c1'' = Some chain1 \<and>
   addedStep (addReasoningStep engine1 ''c1'' Action ''consider options'' [] [] []) =
     Some \<lparr>step_id = ''step-1'', step_type = Action, step_content = ''consider options'',
         step_confidence = 3 / 5, step_evidence = [], step_assumptions = [],
         step_alternatives = [], step_validationStatus = Validated\<rparr> \<and>
   claimedConfidence chain1 Action 0 0 = 1 / 2"
proof -
  have "claimedConfidence chain1 Action 0 0 = 1 / 2" by code_simp
  with engine1_chain engine1_add_action show ?thesis by simp
qed


lemma newStep_fields:
  "step_content (newStep chain ty content evidence assumptions alternatives) = content"
  "step_type (newStep chain ty content evidence assumptions alternatives) = ty"
  by (simp_all add: newStep_def Let_def)

lemma addReasoningStep_appends:
  assumes "activeChains eng chainId = Some chain"
  shows "\<exists>step eng' chain'.
           addReasoningStep eng chainId ty content evidence assumptions alternatives
             = Inr (step, eng') \<and>
           activeChains eng' chainId = Some chain' \<and>
           chain_steps chain' = chain_steps chain @ [step] \<and>
           step_type step = ty \<and>
           (step_validationStatus step = Validated \<longleftrightarrow>
              rv_isValid (validateReasoningStep eng
                (newStep chain ty content evidence assumptions alternatives) chain)) \<and>
           (step_validationStatus step = Rejected \<longleftrightarrow>
              \<not> rv_isValid (validateReasoningStep eng
                (newStep chain ty content evidence assumptions alternatives) chain))"
  using assms by (simp add: addReasoningStep_def Let_def newStep_fields)

text \<open>
  C10. \<^verbatim>\<open>makeDecision\<close> on a decision point without options fails with a type error:
  it returns no option and leaves no new engine state, so no conclusion step is appended.
  With at least one option and an existing chain it returns the first option and appends a
  conclusion step to the chain.
\<close>

theorem makeDecision_needs_option:
  "(dp_options decisionPoint = [] \<longrightarrow>
      (\<exists>msg. makeDecision eng chainId decisionPoint rationale = Inl (TypeError msg)))
   \<and> (\<forall>opt others chain.
        dp_options decisionPoint = opt # others \<and> activeChains eng chainId = Some chain \<longrightarrow>
        (\<exists>dp eng' chain'.
           makeDecision eng chainId decisionPoint rationale = Inr (opt, dp, eng') \<and>
           dp_selectedOption dp = Some (opt_id opt) \<and>
           activeChains eng' chainId = Some chain' \<and>
           butlast (chain_steps chain') = chain_steps chain \<and>
           step_type (last (chain_steps chain')) = Conclusion))"
proof (intro conjI impI allI)
  assume "dp_options decisionPoint = []"
  then show "\<exists>msg. makeDecision eng chainId decisionPoint rationale = Inl (TypeError msg)"
    by (simp add: makeDecision_def)
next
  fix opt others chain
  assume h: "dp_options decisionPoint = opt # others \<and> activeChains eng chainId = Some chain"
  let ?score = "toFixed2 (opt_feasibilityScore opt)"
  let ?dp = "decisionPoint
                \<lparr>dp_selectedOption := Some (opt_id opt),
                 dp_rationale :=
                   (case rationale of
                      None \<Rightarrow> ''Selected based on highest feasibility score ('' @ ?score @ '')''
                    | Some r \<Rightarrow>
                        if r = [] then ''Selected based on highest feasibility score ('' @ ?score @ '')''
                        else r),
                 dp_confidence := opt_feasibilityScore opt\<rparr>"
  from h have "activeChains eng chainId = Some chain" by simp
  from addReasoningStep_appends [OF this, of Conclusion
      "''Decision made: '' @ opt_description opt"
      "[''Feasibility score: '' @ ?score, ''Rationale: '' @ dp_rationale ?dp]"
      "[''Option is feasible with available tools'']" "[]"]
  obtain step eng' chain' where
    add: "addReasoningStep eng chainId Conclusion (''Decision made: '' @ opt_description opt)
            [''Feasibility score: '' @ ?score, ''Rationale: '' @ dp_rationale ?dp]
            [''Option is feasible with available tools''] [] = Inr (step, eng')"
    and ch: "activeChains eng' chainId = Some chain'"
    and st: "chain_steps chain' = chain_steps chain @ [step]"
    and ty: "step_type step = Conclusion"
    by blast
  from h add have "makeDecision eng chainId decisionPoint rationale = Inr (opt, ?dp, eng')"
    by (simp add: makeDecision_def Let_def)
  with ch st ty
  show "\<exists>dp eng' chain'.
           makeDecision eng chainId decisionPoint rationale = Inr (opt, dp, eng') \<and>
           dp_selectedOption dp = Some (opt_id opt) \<and>
           activeChains eng' chainId = Some chain' \<and>
           butlast (chain_steps chain') = chain_steps chain \<and>
           step_type (last (chain_steps chain')) = Conclusion"
    by (intro exI [of _ ?dp] exI [of _ eng'] exI [of _ chain']) simp
qed

theorem makeDecision_needs_option_witness:
  "dp_options (decision_with []) = [] \<and>
   (\<exists>msg. makeDecision engine1 ''c1'' (decision_with []) None = Inl (TypeError msg)) \<and>
   dp_options (decision_with [one_option]) = one_option # [] \<and>
   activeChains engine1 ''c1'' = Some chain1 \<and>
   (\<exists>dp eng' chain'.
      makeDecision engine1 ''c1'' (decision_with [one_option]) None = Inr (one_option, dp, eng') \<and>
      dp_selectedOption dp = Some (opt_id one_option) \<and>
      activeChains eng' ''c1'' = Some chain' \<and>
      butlast (chain_steps chain') = chain_steps chain1 \<and>
      step_type (last (chain_steps chain')) = Conclusion)"
proof -
  have e: "dp_options (decision_with []) = []"
    and o: "dp_options (decision_with [one_option]) = one_option # []"
    by (simp_all add: decision_with_def)
  from makeDecision_needs_option [of "decision_with []" engine1 "''c1''" None] e
  have "\<exists>msg. makeDecision engine1 ''c1'' (decision_with []) None = Inl (TypeError msg)"
    by blast
  moreover
  from makeDecision_needs_option [of "decision_with [one_option]" engine1 "''c1''" None]
    o engine1_chain
  have "\<exists>dp eng' chain'.
      makeDecision engine1 ''c1'' (decision_with [one_option]) None = Inr (one_option, dp, eng') \<and>
      dp_selectedOption dp = Some (opt_id one_option) \<and>
      activeChains eng' ''c1'' = Some chain' \<and>
      butlast (chain_steps chain') = chain_steps chain1 \<and>
      step_type (last (chain_steps chain')) = Conclusion"
    by blast
  ultimately show ?thesis using e o engine1_chain by blast
qed

lemma validateReasoningStep_circular:
  assumes "hasCircularReasoning step chain"
  shows "list_ex (\<lambda>i. ri_type i = r_circular_reasoning \<and> ri_severity i = High)
           (rv_issues (validateReasoningStep eng step chain))"
    and "\<not> rv_isValid (validateReasoningStep eng step chain)"
  using assms
  by (auto simp: validateReasoningStep_def Let_def list_ex_iff filter_empty_conv
      split: prod.splits)

text \<open>
  C7 (as amended). When the content of a step added by \<^verbatim>\<open>addReasoningStep\<close> has a
  similarity strictly above 0.8 (as \<^verbatim>\<open>calculateSimilarity\<close> measures it on the
  lower-cased texts) with the content of a step of the chain other than its last one, the
  validation of the step produces a circular-reasoning issue of high severity, whatever the
  step types, and the step is recorded as rejected.
\<close>

theorem addReasoningStep_circular:
  assumes chain: "activeChains eng chainId = Some chain"
    and prev: "prev \<in> set (butlast (chain_steps chain))"
    and sim: "calculateSimilarity (toLowerCase content) (toLowerCase (step_content prev)) > 0.8"
  shows "list_ex (\<lambda>i. ri_type i = r_circular_reasoning \<and> ri_severity i = High)
           (rv_issues (validateReasoningStep eng
              (newStep chain ty content evidence assumptions alternatives) chain))
       \<and> (\<exists>step eng'.
            addReasoningStep eng chainId ty content evidence assumptions alternatives
              = Inr (step, eng') \<and>
            step_validationStatus step = Rejected)"
proof -
  let ?s = "newStep chain ty content evidence assumptions alternatives"
  from prev sim have circ: "hasCircularReasoning ?s chain"
    by (auto simp: hasCircularReasoning_def Let_def newStep_fields list_ex_iff butlast_conv_take)
  from addReasoningStep_appends [OF chain, of ty content evidence assumptions alternatives]
    validateReasoningStep_circular [OF circ, of eng]
  show ?thesis by blast
qed

lemma chain2_first:
  "chain_steps chain2 ! 0 \<in> set (butlast (chain_steps chain2)) \<and>
   step_content (chain_steps chain2 ! 0) = ''Starting reasoning for goal: build''"
  by code_simp

lemma similarity_exact:
  "calculateSimilarity (toLowerCase ''Starting reasoning for goal:'')
     (toLowerCase ''Starting reasoning for goal: build'') = 4 / 5"
  by code_simp

lemma similarity_full:
  "calculateSimilarity (toLowerCase ''starting REASONING for goal: build'')
     (toLowerCase ''Starting reasoning for goal: build'') = 1"
  by code_simp

theorem addReasoningStep_circular_witness:
  "activeChains engine2 ''c1'' = Some chain2 \<and>
   chain_steps chain2 ! 0 \<in> set (butlast (chain_steps chain2)) \<and>
   calculateSimilarity (toLowerCase ''starting REASONING for goal: build'')
     (toLowerCase (step_content (chain_steps chain2 ! 0))) > 0.8 \<and>
   list_ex (\<lambda>i. ri_type i = r_circular_reasoning \<and> ri_severity i = High)
     (rv_issues (validateReasoningStep engine2
        (newStep chain2 Hypothesis ''starting REASONING for goal: build'' [] [] []) chain2)) \<and>
   (\<exists>step eng'.
      addReasoningStep engine2 ''c1'' Hypothesis ''starting REASONING for goal: build'' [] [] []
        = Inr (step, eng') \<and>
      step_validationStatus step = Rejected)"
proof -
  have p: "chain_steps chain2 ! 0 \<in> set (butlast (chain_steps chain2))"
    using chain2_first by simp
  have s: "calculateSimilarity (toLowerCase ''starting REASONING for goal: build'')
     (toLowerCase (step_content (chain_steps chain2 ! 0))) > 0.8"
    using chain2_first similarity_full by simp
  from addReasoningStep_circular [OF engine2_chain p s, of Hypothesis "[]" "[]" "[]"]
    engine2_chain p s
  show ?thesis by blast
qed

text \<open>
  The claim as stated fails at a similarity of exactly 0.8: the content
  \<open>Starting reasoning for goal:\<close> shares four of the five tokens of the first step of the
  chain, and the step is validated without a circular-reasoning issue.
\<close>

theorem addReasoningStep_circular_counterexample:
  "activeChains engine2 ''c1'' = Some chain2 \<and>
   chain_steps chain2 ! 0 \<in> set (butlast (chain_steps chain2)) \<and>
   calculateSimilarity (toLowerCase ''Starting reasoning for goal:'')
     (toLowerCase (step_content (chain_steps chain2 ! 0))) = 4 / 5 \<and>
   rv_issues (validateReasoningStep engine2
     (newStep chain2 Hypothesis ''Starting reasoning for goal:'' [] [] []) chain2) = [] \<and>
   addedStep (addReasoningStep engine2 ''c1'' Hypothesis ''Starting reasoning for goal:'' [] [] [])
     = Some \<lparr>step_id = ''step-2'', step_type = Hypothesis,
         step_content = ''Starting reasoning for goal:'', step_confidence = 7 / 10,
         step_evidence = [], step_assumptions = [], step_alternatives = [],
         step_validationStatus = Validated\<rparr>"
proof -
  have "rv_issues (validateReasoningStep engine2
     (newStep chain2 Hypothesis ''Starting reasoning for goal:'' [] [] []) chain2) = []"
    by code_simp
  moreover have "addedStep
      (addReasoningStep engine2 ''c1'' Hypothesis ''Starting reasoning for goal:'' [] [] [])
     = Some \<lparr>step_id = ''step-2'', step_type = Hypothesis,
         step_content = ''Starting reasoning for goal:'', step_confidence = 7 / 10,
         step_evidence = [], step_assumptions = [], step_alternatives = [],
         step_validationStatus = Validated\<rparr>"
    by code_simp
  ultimately show ?thesis
    using engine2_chain chain2_first similarity_exact by simp
qed

text \<open>
  The loop of \<^verbatim>\<open>hasCircularReasoning\<close> stops before the last step of the chain, which
  at the time of the call is the step immediately before the new one: a step that repeats
  that step word for word is validated.
\<close>

lemma addReasoningStep_repeats_last_step:
  "step_content (last (chain_steps chain2)) = ''the log shows a timeout'' \<and>
   addedStep (addReasoningStep engine2 ''c1'' Observation ''the log shows a timeout'' [] [] [])
     = Some \<lparr>step_id = ''step-2'', step_type = Observation,
         step_content = ''the log shows a timeout'', step_confidence = 7 / 10,
         step_evidence = [], step_assumptions = [], step_alternatives = [],
         step_validationStatus = Validated\<rparr>"
  by code_simp



section \<open>Properties of the planner\<close>

lemma executeLoop_step:
  "executeLoop context (step # rest) results =
     (if haltsAfter context step results then results @ [stepOutcome context step results]
      else executeLoop context rest (results @ [stepOutcome context step results]))"
  by (simp add: haltsAfter_def stepOutcome_def Let_def)

lemma executeLoop_outcomes:
  "\<exists>new. executeLoop context steps results = results @ new \<and>
     length new \<le> length steps \<and>
     (steps \<noteq> [] \<longrightarrow> new \<noteq> []) \<and>
     (\<forall>k<length new. new ! k = stepOutcome context (steps ! k) (results @ take k new)) \<and>
     (\<forall>k<length new. Suc k < length steps \<longrightarrow>
        (Suc k < length new \<longleftrightarrow> \<not> haltsAfter context (steps ! k) (results @ take k new)))"
proof (induction steps arbitrary: results)
  case Nil
  show ?case by simp
next
  case (Cons step rest)
  let ?r = "stepOutcome context step results"
  show ?case
  proof (cases "haltsAfter context step results")
    case True
    then have "executeLoop context (step # rest) results = results @ [?r]"
      unfolding executeLoop_step by simp
    with True show ?thesis
      by (intro exI [of _ "[?r]"]) simp
  next
    case False
    from Cons.IH [of "results @ [?r]"] obtain new where
      e: "executeLoop context rest (results @ [?r]) = (results @ [?r]) @ new"
      and l: "length new \<le> length rest"
      and n: "rest \<noteq> [] \<longrightarrow> new \<noteq> []"
      and o: "\<forall>k<length new. new ! k = stepOutcome context (rest ! k) ((results @ [?r]) @ take k new)"
      and h: "\<forall>k<length new. Suc k < length rest \<longrightarrow>
        (Suc k < length new \<longleftrightarrow> \<not> haltsAfter context (rest ! k) ((results @ [?r]) @ take k new))"
      by blast
    have 1: "executeLoop context (step # rest) results = results @ (?r # new)"
      unfolding executeLoop_step using False e by simp
    have 2: "length (?r # new) \<le> length (step # rest)" using l by simp
    have 3: "\<forall>k<length (?r # new).
        (?r # new) ! k = stepOutcome context ((step # rest) ! k) (results @ take k (?r # new))"
    proof (intro allI impI)
      fix k assume "k < length (?r # new)"
      then show "(?r # new) ! k = stepOutcome context ((step # rest) ! k) (results @ take k (?r # new))"
        using o by (cases k) simp_all
    qed
    have 4: "\<forall>k<length (?r # new). Suc k < length (step # rest) \<longrightarrow>
        (Suc k < length (?r # new) \<longleftrightarrow>
           \<not> haltsAfter context ((step # rest) ! k) (results @ take k (?r # new)))"
    proof (intro allI impI)
      fix k assume k: "k < length (?r # new)" and s: "Suc k < length (step # rest)"
      show "Suc k < length (?r # new) \<longleftrightarrow>
           \<not> haltsAfter context ((step # rest) ! k) (results @ take k (?r # new))"
      proof (cases k)
        case 0
        with s n False show ?thesis by auto
      next
        case (Suc k')
        with k s h show ?thesis by simp
      qed
    qed
    from 1 2 3 4 show ?thesis
      by (intro exI [of _ "?r # new"]) simp
  qed
qed

lemma executePlan_results:
  assumes "executePlan planner planId context = Inr (results, planner')"
    and "activePlans planner planId = Some plan"
    and "topologicalSort (plan_steps plan) = Inr sortedSteps"
  shows "results = executeLoop context sortedSteps []"
  using assms by (simp add: executePlan_def Let_def)

lemma executeLoop_from_empty:
  "length (executeLoop context steps []) \<le> length steps \<and>
   (steps \<noteq> [] \<longrightarrow> executeLoop context steps [] \<noteq> []) \<and>
   (\<forall>k<length (executeLoop context steps []).
      executeLoop context steps [] ! k
        = stepOutcome context (steps ! k) (take k (executeLoop context steps []))) \<and>
   (\<forall>k<length (executeLoop context steps []). Suc k < length steps \<longrightarrow>
      (Suc k < length (executeLoop context steps []) \<longleftrightarrow>
         \<not> haltsAfter context (steps ! k) (take k (executeLoop context steps []))))"
  using executeLoop_outcomes [of "context" steps "[]"] by auto

lemma topologicalSort_pair:
  assumes "ps_id A \<noteq> ps_id B" and "ps_dependencies A = []"
    and "ps_dependencies B = [ps_id A]"
  shows "topologicalSort [A, B] = Inr [A, B]"
  using assms by (simp add: topologicalSort_def)

lemma topologicalSort_pair_rev:
  assumes "ps_id A \<noteq> ps_id B" and "ps_dependencies A = []"
    and "ps_dependencies B = [ps_id A]"
  shows "topologicalSort [B, A] = Inr [A, B]"
  using assms by (simp add: topologicalSort_def)

lemma executeStep_fails:
  "\<not> set (ps_requiredTools step) \<subseteq> set (pec_registeredTools context) \<Longrightarrow>
     \<not> sr_success (executeStep step context results)"
  by (auto simp: executeStep_def Let_def)

lemma executeStep_stepId: "sr_stepId (executeStep step context results) = ps_id step"
  by (simp add: executeStep_def Let_def split: prod.splits)

text \<open>
  C2 (as amended). The loop of \<^verbatim>\<open>executePlan\<close> records for every step, in sorted order,
  either the result of executing the step, and then every dependency of the step has a
  successful result among the results recorded before, or the synthesised failure, which has
  no tool in \<^verbatim>\<open>toolsUsed\<close>. In particular, for a plan of the steps A (no dependencies)
  and B (depending on A), listed in either order, where the execution of A fails and A
  declares a non-empty fallback strategy, the result list holds a result for B with
  \<^verbatim>\<open>success = false\<close> and an empty \<^verbatim>\<open>toolsUsed\<close>.
\<close>

theorem executePlan_dependencies:
  assumes run: "executePlan planner planId context = Inr (results, planner')"
    and plan: "activePlans planner planId = Some plan"
    and sort: "topologicalSort (plan_steps plan) = Inr sortedSteps"
  shows "length results \<le> length sortedSteps
    \<and> (\<forall>k<length results.
          results ! k =
            (if depsSatisfied (sortedSteps ! k) (take k results)
             then executeStep (sortedSteps ! k) context (take k results)
             else failedResult (sortedSteps ! k)))
    \<and> (\<forall>A B. (plan_steps plan = [A, B] \<or> plan_steps plan = [B, A]) \<and> ps_id A \<noteq> ps_id B \<and> ps_dependencies A = [] \<and>
          ps_dependencies B = [ps_id A] \<and>
          \<not> set (ps_requiredTools A) \<subseteq> set (pec_registeredTools context) \<and>
          \<not> noFallback A \<longrightarrow>
          length results = 2 \<and> sr_stepId (results ! 1) = ps_id B \<and>
          \<not> sr_success (results ! 1) \<and> sr_toolsUsed (results ! 1) = [])"
proof -
  have res: "results = executeLoop context sortedSteps []"
    using run plan sort by (rule executePlan_results)
  have general: "length results \<le> length sortedSteps"
    "\<forall>k<length results.
          results ! k =
            (if depsSatisfied (sortedSteps ! k) (take k results)
             then executeStep (sortedSteps ! k) context (take k results)
             else failedResult (sortedSteps ! k))"
    using executeLoop_from_empty [of "context" sortedSteps]
    unfolding res stepOutcome_def by simp_all
  have particular: "length results = 2 \<and> sr_stepId (results ! 1) = ps_id B \<and>
          \<not> sr_success (results ! 1) \<and> sr_toolsUsed (results ! 1) = []"
    if h: "(plan_steps plan = [A, B] \<or> plan_steps plan = [B, A]) \<and> ps_id A \<noteq> ps_id B \<and> ps_dependencies A = [] \<and>
          ps_dependencies B = [ps_id A] \<and>
          \<not> set (ps_requiredTools A) \<subseteq> set (pec_registeredTools context) \<and>
          \<not> noFallback A" for A B
  proof -
    from h sort have s: "sortedSteps = [A, B]"
      by (auto simp: topologicalSort_pair topologicalSort_pair_rev)
    from h have f: "\<not> sr_success (executeStep A context [])"
      by (simp add: executeStep_fails)
    have d: "depsSatisfied A []" using h by (simp add: depsSatisfied_def)
    have "\<not> depsSatisfied B [executeStep A context []]"
      using h f by (simp add: depsSatisfied_def)
    with h f d have "results = [executeStep A context [], failedResult B]"
      unfolding res s by (simp add: Let_def)
    then show ?thesis by (simp add: failedResult_def)
  qed
  from general particular show ?thesis by blast
qed

lemma plan_ab_results:
  "resultsOf (executePlan (planner_ab (Some ''ask the user'')) ''ab'' context_without_read) =
     Some [executeStep (step_a (Some ''ask the user'')) context_without_read [],
           failedResult step_b]"
  by code_simp

lemma resultsOf_Some: "resultsOf r = Some results \<Longrightarrow> \<exists>planner'. r = Inr (results, planner')"
  by (auto simp: resultsOf_def split: sum.splits)

theorem executePlan_dependencies_witness:
  "activePlans (planner_ab (Some ''ask the user'')) ''ab'' = Some (plan_ab (Some ''ask the user''))
   \<and> topologicalSort (plan_steps (plan_ab (Some ''ask the user'')))
       = Inr [step_a (Some ''ask the user''), step_b]
   \<and> resultsOf (executePlan (planner_ab (Some ''ask the user'')) ''ab'' context_without_read)
       = Some [executeStep (step_a (Some ''ask the user'')) context_without_read [],
               failedResult step_b]
   \<and> ps_id (step_a (Some ''ask the user'')) \<noteq> ps_id step_b
   \<and> ps_dependencies (step_a (Some ''ask the user'')) = []
   \<and> ps_dependencies step_b = [ps_id (step_a (Some ''ask the user''))]
   \<and> \<not> set (ps_requiredTools (step_a (Some ''ask the user'')))
          \<subseteq> set (pec_registeredTools context_without_read)
   \<and> \<not> noFallback (step_a (Some ''ask the user''))
   \<and> sr_stepId (failedResult step_b) = ps_id step_b
   \<and> \<not> sr_success (failedResult step_b) \<and> sr_toolsUsed (failedResult step_b) = []"
proof -
  let ?A = "step_a (Some ''ask the user'')"
  have p: "activePlans (planner_ab (Some ''ask the user'')) ''ab''
      = Some (plan_ab (Some ''ask the user''))"
    by (simp add: planner_ab_def)
  have s: "topologicalSort (plan_steps (plan_ab (Some ''ask the user''))) = Inr [?A, step_b]"
    by code_simp
  from resultsOf_Some [OF plan_ab_results] obtain planner' where
    r: "executePlan (planner_ab (Some ''ask the user'')) ''ab'' context_without_read
          = Inr ([executeStep ?A context_without_read [], failedResult step_b], planner')" ..
  have h: "plan_steps (plan_ab (Some ''ask the user'')) = [?A, step_b]"
    "ps_id ?A \<noteq> ps_id step_b" "ps_dependencies ?A = []"
    "ps_dependencies step_b = [ps_id ?A]"
    "\<not> set (ps_requiredTools ?A) \<subseteq> set (pec_registeredTools context_without_read)"
    "\<not> noFallback ?A"
    by (simp_all add: plan_ab_def step_a_def step_b_def context_without_read_def
        full_context_def noFallback_def)
  from executePlan_dependencies [OF r p s] h
  have "sr_stepId ([executeStep ?A context_without_read [], failedResult step_b] ! 1)
          = ps_id step_b \<and>
        \<not> sr_success ([executeStep ?A context_without_read [], failedResult step_b] ! 1) \<and>
        sr_toolsUsed ([executeStep ?A context_without_read [], failedResult step_b] ! 1) = []"
    by blast
  then have "sr_stepId (failedResult step_b) = ps_id step_b \<and>
        \<not> sr_success (failedResult step_b) \<and> sr_toolsUsed (failedResult step_b) = []"
    by simp
  with p s plan_ab_results h show ?thesis by simp
qed

text \<open>
  The claim as stated fails when A declares no fallback strategy: the loop is left after
  the failed result of A, and the result list holds no result for B.
\<close>

theorem executePlan_dependencies_counterexample:
  "map_option plan_steps (activePlans (planner_ab None) ''ab'') = Some [step_a None, step_b]
   \<and> ps_dependencies (step_a None) = []
   \<and> ps_dependencies step_b = [ps_id (step_a None)]
   \<and> \<not> sr_success (executeStep (step_a None) context_without_read [])
   \<and> resultsOf (executePlan (planner_ab None) ''ab'' context_without_read)
       = Some [executeStep (step_a None) context_without_read []]"
  by code_simp

text \<open>
  C3 (as amended). The loop of \<^verbatim>\<open>executePlan\<close> over the sorted steps records a result
  for the first step, and after the result of a step it goes on to the next step unless the
  step was executed (its dependencies were satisfied), its result is a failure, and it
  declares no non-empty fallback strategy; in that case it halts and the remaining steps get
  no result. So a failed step with a non-empty fallback strategy is followed by the next
  step, and so is a step that got the synthesised failure for unsatisfied dependencies,
  with or without a fallback strategy.
\<close>

theorem executePlan_halts:
  assumes run: "executePlan planner planId context = Inr (results, planner')"
    and plan: "activePlans planner planId = Some plan"
    and sort: "topologicalSort (plan_steps plan) = Inr sortedSteps"
  shows "(sortedSteps \<noteq> [] \<longrightarrow> results \<noteq> [])
    \<and> (\<forall>k. k < length results \<and> Suc k < length sortedSteps \<longrightarrow>
          (Suc k < length results \<longleftrightarrow>
             \<not> (depsSatisfied (sortedSteps ! k) (take k results) \<and>
                \<not> sr_success (results ! k) \<and> noFallback (sortedSteps ! k))))"
proof -
  have res: "results = executeLoop context sortedSteps []"
    using run plan sort by (rule executePlan_results)
  note loop = executeLoop_from_empty [of "context" sortedSteps, folded res]
  have "Suc k < length results \<longleftrightarrow>
             \<not> (depsSatisfied (sortedSteps ! k) (take k results) \<and>
                \<not> sr_success (results ! k) \<and> noFallback (sortedSteps ! k))"
    if k: "k < length results \<and> Suc k < length sortedSteps" for k
  proof -
    from loop k have o: "results ! k = stepOutcome context (sortedSteps ! k) (take k results)"
      by blast
    from loop k have "Suc k < length results \<longleftrightarrow>
        \<not> haltsAfter context (sortedSteps ! k) (take k results)"
      by blast
    with o show ?thesis
      by (auto simp: haltsAfter_def stepOutcome_def)
  qed
  with loop show ?thesis by blast
qed

lemma planner1_plan: "map_option plan_steps (activePlans planner1 ''p1'') = Some folder_steps"
  by code_simp

lemma folder_steps_sorted: "topologicalSort folder_steps = Inr folder_steps"
  by code_simp

lemma folder_steps_fallbacks:
  "map (\<lambda>s. (ps_id s, noFallback s)) folder_steps =
     [(''analysis-1'', False), (''verification-1'', False), (''fs-1'', True),
      (''synthesis-1'', False)]"
  by code_simp

lemma folder_results:
  "map_option (map (\<lambda>r. (sr_stepId r, sr_success r)))
     (resultsOf (executePlan planner1 ''p1'' context_without_read)) =
   Some [(''analysis-1'', False), (''verification-1'', False), (''fs-1'', False),
         (''synthesis-1'', False)]"
  by code_simp

theorem executePlan_halts_witness:
  "(\<exists>plan results planner'.
      activePlans planner1 ''p1'' = Some plan \<and>
      topologicalSort (plan_steps plan) = Inr folder_steps \<and>
      executePlan planner1 ''p1'' context_without_read = Inr (results, planner') \<and>
      length results = 4 \<and> length folder_steps = 4 \<and>
      \<not> (depsSatisfied (folder_steps ! 2) (take 2 results) \<and>
         \<not> sr_success (results ! 2) \<and> noFallback (folder_steps ! 2)))
   \<and> (\<exists>results planner'.
      activePlans (planner_ab None) ''ab'' = Some (plan_ab None) \<and>
      topologicalSort (plan_steps (plan_ab None)) = Inr [step_a None, step_b] \<and>
      executePlan (planner_ab None) ''ab'' context_without_read = Inr (results, planner') \<and>
      length results = 1 \<and>
      depsSatisfied (step_a None) (take 0 results) \<and>
      \<not> sr_success (results ! 0) \<and> noFallback (step_a None))"
proof -
  from planner1_plan obtain plan where
    p: "activePlans planner1 ''p1'' = Some plan" and ps: "plan_steps plan = folder_steps"
    by auto
  from folder_results obtain results where
    ro: "resultsOf (executePlan planner1 ''p1'' context_without_read) = Some results"
    and rl: "map (\<lambda>r. (sr_stepId r, sr_success r)) results =
       [(''analysis-1'', False), (''verification-1'', False), (''fs-1'', False),
         (''synthesis-1'', False)]"
    by auto
  from resultsOf_Some [OF ro] obtain planner' where
    r: "executePlan planner1 ''p1'' context_without_read = Inr (results, planner')" ..
  have s: "topologicalSort (plan_steps plan) = Inr folder_steps"
    using ps folder_steps_sorted by simp
  have len: "length results = 4"
    using arg_cong [OF rl, of length] by simp
  have fl: "length folder_steps = 4"
    using arg_cong [OF folder_steps_fallbacks, of length] by simp
  from executePlan_halts [OF r p s] len fl
  have "\<not> (depsSatisfied (folder_steps ! 2) (take 2 results) \<and>
         \<not> sr_success (results ! 2) \<and> noFallback (folder_steps ! 2))"
    by (simp add: numeral_3_eq_3)
  with p s r len fl have first: "\<exists>plan results planner'.
      activePlans planner1 ''p1'' = Some plan \<and>
      topologicalSort (plan_steps plan) = Inr folder_steps \<and>
      executePlan planner1 ''p1'' context_without_read = Inr (results, planner') \<and>
      length results = 4 \<and> length folder_steps = 4 \<and>
      \<not> (depsSatisfied (folder_steps ! 2) (take 2 results) \<and>
         \<not> sr_success (results ! 2) \<and> noFallback (folder_steps ! 2))"
    by blast
  have p2: "activePlans (planner_ab None) ''ab'' = Some (plan_ab None)"
    by (simp add: planner_ab_def)
  have s2: "topologicalSort (plan_steps (plan_ab None)) = Inr [step_a None, step_b]"
    by code_simp
  have "resultsOf (executePlan (planner_ab None) ''ab'' context_without_read)
       = Some [executeStep (step_a None) context_without_read []]"
    by code_simp
  from resultsOf_Some [OF this] obtain planner2 where
    r2: "executePlan (planner_ab None) ''ab'' context_without_read
       = Inr ([executeStep (step_a None) context_without_read []], planner2)" ..
  from executePlan_halts [OF r2 p2 s2]
  have "depsSatisfied (step_a None) (take 0 [executeStep (step_a None) context_without_read []]) \<and>
      \<not> sr_success ([executeStep (step_a None) context_without_read []] ! 0) \<and>
      noFallback (step_a None)"
    by simp
  with p2 s2 r2 have second: "\<exists>results planner'.
      activePlans (planner_ab None) ''ab'' = Some (plan_ab None) \<and>
      topologicalSort (plan_steps (plan_ab None)) = Inr [step_a None, step_b] \<and>
      executePlan (planner_ab None) ''ab'' context_without_read = Inr (results, planner') \<and>
      length results = 1 \<and>
      depsSatisfied (step_a None) (take 0 results) \<and>
      \<not> sr_success (results ! 0) \<and> noFallback (step_a None)"
    by (intro exI [of _ "[executeStep (step_a None) context_without_read []]"] exI [of _ planner2])
       simp
  from first second show ?thesis by blast
qed

text \<open>
  The claim as stated fails on a plan that \<^verbatim>\<open>createPlan\<close> built, executed with a
  registry that lacks \<^verbatim>\<open>read_file\<close>: the step \<open>fs-1\<close> declares no fallback strategy
  and its result is a failure (its dependencies are not satisfied), and the loop goes on to
  \<open>synthesis-1\<close>.
\<close>

theorem executePlan_halts_counterexample:
  "map_option plan_steps (activePlans planner1 ''p1'') = Some folder_steps
   \<and> topologicalSort folder_steps = Inr folder_steps
   \<and> map (\<lambda>s. (ps_id s, noFallback s)) folder_steps =
       [(''analysis-1'', False), (''verification-1'', False), (''fs-1'', True),
        (''synthesis-1'', False)]
   \<and> map_option (map (\<lambda>r. (sr_stepId r, sr_success r)))
       (resultsOf (executePlan planner1 ''p1'' context_without_read)) =
     Some [(''analysis-1'', False), (''verification-1'', False), (''fs-1'', False),
           (''synthesis-1'', False)]"
  using planner1_plan folder_steps_sorted folder_steps_fallbacks folder_results by simp


subsection \<open>Cycle detection\<close>






























subsection \<open>Plan creation\<close>

lemma validatePlan_cong:
  "plan_steps p = plan_steps q \<Longrightarrow> hp_toolNames a = hp_toolNames b \<Longrightarrow>
     validatePlan a p = validatePlan b q"
  by (simp add: validatePlan_def)

lemma valid_no_errors:
  "pv_isValid (validatePlan planner p) \<longleftrightarrow> pv_errors (validatePlan planner p) = []"
  by (simp add: validatePlan_def Let_def)

lemma createPlan_Inr:
  assumes "createPlan planner newPlanId goal context constraints = Inr (plan, planner')"
  shows "plan_steps plan = decomposeGoal goal context (hp_toolNames planner) constraints"
    and "hp_toolNames planner' = hp_toolNames planner"
    and "activePlans planner' newPlanId = Some plan"
    and "plan_id plan = newPlanId"
    and "pv_isValid (validatePlan planner
           \<lparr>plan_id = newPlanId, plan_title = extractPlanTitle goal, plan_description = goal,
            plan_goal = goal,
            plan_steps = decomposeGoal goal context (hp_toolNames planner) constraints,
            plan_estimatedDuration = 0, plan_riskLevel = LevelMedium,
            plan_availableTools = hp_toolNames planner,
            plan_contextConstraints = constraints\<rparr>)"
  using assms by (auto simp: createPlan_def Let_def split: if_splits)

text \<open>The decomposition has no cycle and no unresolved dependency, so plan creation
  succeeds exactly when the tools of the analysis step are registered.\<close>

lemma decomposeGoal_acyclic:
  "\<not> hasCyclicDependencies (decomposeGoal goal context tools constraints)"
  by (simp add: decomposeGoal_def hasCyclicDependencies_def createFileSystemSteps_def
      createCodeSteps_def createAnalysisSteps_def createGeneralSteps_def Let_def)

lemma decomposeGoal_errors:
  "pv_errors (validatePlan planner
     (plan\<lparr>plan_steps := decomposeGoal goal context (hp_toolNames planner) constraints\<rparr>)) = []
   \<longleftrightarrow> {''read_file'', ''ls'', ''grep''} \<subseteq> set (hp_toolNames planner)"
  using decomposeGoal_acyclic [of goal "context" "hp_toolNames planner" constraints]
    set_take_subset [of 3 "hp_toolNames planner"]
  by (auto simp: validatePlan_def Let_def decomposeGoal_def createFileSystemSteps_def
      createCodeSteps_def createAnalysisSteps_def createGeneralSteps_def quoted_def)

lemma createPlan_succeeds_iff:
  "(\<exists>plan planner'. createPlan planner newPlanId goal context constraints = Inr (plan, planner'))
     \<longleftrightarrow> {''read_file'', ''ls'', ''grep''} \<subseteq> set (hp_toolNames planner)"
  unfolding createPlan_def Let_def valid_no_errors decomposeGoal_errors by auto

text \<open>
  C9. When \<^verbatim>\<open>createPlan\<close> succeeds, validating the returned plan right away, against the
  same registered tools, reports it as valid; the plan is stored under its identifier.
\<close>

theorem createPlan_validatePlan:
  assumes "createPlan planner newPlanId goal context constraints = Inr (plan, planner')"
  shows "pv_isValid (validatePlan planner' plan) \<and> pv_isValid (validatePlan planner plan)
    \<and> pv_errors (validatePlan planner' plan) = []
    \<and> activePlans planner' (plan_id plan) = Some plan"
proof -
  note c = createPlan_Inr [OF assms]
  define p0 where "p0 =
     \<lparr>plan_id = newPlanId, plan_title = extractPlanTitle goal, plan_description = goal,
      plan_goal = goal,
      plan_steps = decomposeGoal goal context (hp_toolNames planner) constraints,
      plan_estimatedDuration = 0, plan_riskLevel = LevelMedium,
      plan_availableTools = hp_toolNames planner,
      plan_contextConstraints = constraints\<rparr>"
  have steps: "plan_steps plan = plan_steps p0" using c(1) by (simp add: p0_def)
  have v0: "pv_isValid (validatePlan planner p0)" using c(5) by (simp only: p0_def)
  have e1: "validatePlan planner' plan = validatePlan planner p0"
    using steps c(2) by (rule validatePlan_cong)
  have e2: "validatePlan planner plan = validatePlan planner p0"
    using steps refl by (rule validatePlan_cong)
  have a: "pv_isValid (validatePlan planner' plan)" using v0 by (simp only: e1)
  have b: "pv_isValid (validatePlan planner plan)" using v0 by (simp only: e2)
  have d: "pv_errors (validatePlan planner' plan) = []"
    using a by (simp only: valid_no_errors)
  have e: "activePlans planner' (plan_id plan) = Some plan"
    using c(3) by (simp only: c(4))
  from a b d e show ?thesis by (intro conjI)
qed

lemma planner1_created:
  "map_option plan_steps
     (map_option fst (case createPlan planner0 ''p1'' ''clean the folder'' [] [] of
        Inl err \<Rightarrow> None | Inr r \<Rightarrow> Some r)) = Some folder_steps"
  by code_simp

theorem createPlan_validatePlan_witness:
  "\<exists>plan planner'.
     createPlan planner0 ''p1'' ''clean the folder'' [] [] = Inr (plan, planner') \<and>
     plan_steps plan = folder_steps \<and>
     pv_isValid (validatePlan planner' plan) \<and> pv_isValid (validatePlan planner0 plan) \<and>
     pv_errors (validatePlan planner' plan) = [] \<and>
     activePlans planner' (plan_id plan) = Some plan"
proof -
  from planner1_created obtain plan planner' where
    c: "createPlan planner0 ''p1'' ''clean the folder'' [] [] = Inr (plan, planner')"
    and s: "plan_steps plan = folder_steps"
    by (auto split: sum.splits)
  from createPlan_validatePlan [OF c] c s show ?thesis by blast
qed


end
